theory Spec2Isabelle
  imports Main "HOL-Library.Word"
begin

unbundle bit_operations_syntax

section \<open>Data model of lib/libwebsockets.c\<close>

text \<open>
  A connection slot of the context (\<open>struct libwebsocket *wsi[]\<close>) holds either a pointer to
  a connection record or a small integer cast to a pointer. The code tells them apart with
  \<open>(unsigned long)wsi < LWS_MAX_PROTOCOLS\<close>, so a slot value is a 64-bit word and the
  records live in an explicit heap from addresses to records. \<open>free\<close> removes the
  address from the heap; dereferencing an address that the heap does not hold is undefined
  behaviour in C and a fault here.
\<close>

type_synonym addr = "64 word"

text \<open>
  Modelled from the spec: the constants of private-libwebsockets.h, which is not part of the
  sources at hand. They are parameters of every function that uses them.
\<close>

record lws_constants =
  LWS_MAX_PROTOCOLS :: nat
  MAX_CLIENTS :: nat
  WSI_TOKEN_COUNT :: nat

text \<open>
  Modelled from the spec: the connection states (an enumeration of private-libwebsockets.h);
  these are the three that libwebsockets.c names.
\<close>

datatype wsi_state = WSI_STATE_HTTP | WSI_STATE_DEAD_SOCKET | WSI_STATE_ESTABLISHED

datatype libwebsocket_callback_reasons =
    LWS_CALLBACK_ESTABLISHED
  | LWS_CALLBACK_CLOSED
  | LWS_CALLBACK_RECEIVE
  | LWS_CALLBACK_BROADCAST
  | LWS_CALLBACK_HTTP

text \<open>The readiness bits of poll.h on Linux; \<open>revents\<close> is a 16-bit \<open>short\<close>.\<close>

definition POLLIN :: "16 word" where
  "POLLIN = 0x0001"

definition POLLERR :: "16 word" where
  "POLLERR = 0x0008"

definition POLLHUP :: "16 word" where
  "POLLHUP = 0x0010"

text \<open>
  Modelled from the spec: the structures below are declared in libwebsockets.h and
  private-libwebsockets.h, which are not part of the sources at hand. Their fields are the
  ones that libwebsockets.c reads and writes, as section 3 of the specification lists them.

  \<open>struct libwebsocket_protocols\<close>. The user's callback is opaque code: the field records
  only whether the function pointer is non-NULL, and calling it is an event of the trace.
  \<open>protocol_index\<close> is a C \<open>int\<close>.
\<close>

record libwebsocket_protocols =
  name :: string
  callback :: bool
  owning_server :: addr
  protocol_index :: "32 word"
  broadcast_socket_port :: nat
  broadcast_socket_user_fd :: int

record lws_tokens =
  token :: addr
  token_len :: int

text \<open>
  Modelled from the spec: \<open>struct libwebsocket\<close>, declared in private-libwebsockets.h. The
  \<open>protocol\<close> pointer always points into the array handed to
  \<open>libwebsocket_create_server\<close>, so it is the index of the entry it points at; pointer
  equality is equality of indices. NULL is address 0.
\<close>

record libwebsocket =
  sock :: int
  state :: wsi_state
  name_buffer_pos :: int
  utf8_token :: "lws_tokens list"
  protocol :: nat
  user_space :: addr
  ietf_spec_revision :: int
  ssl :: addr

record pollfd =
  fd :: int
  events :: "16 word"
  revents :: "16 word"

text \<open>
  Modelled from the spec: \<open>struct libwebsocket_context\<close>, declared in
  private-libwebsockets.h: the two parallel arrays and their counters. The counters are C
  \<open>int\<close>s that the code keeps between 0 and the capacity of the arrays, so they are natural
  numbers here; an array is a list as long as its capacity.
\<close>

record libwebsocket_context =
  fds :: "pollfd list"
  wsi :: "addr list"
  fds_count :: nat
  count_protocols :: nat
  use_ssl :: bool

text \<open>
  What the library does to the outside world, in order: calls of user callbacks
  (connection, reason, user space, length), releases of memory and descriptors, payloads
  sent down a rendezvous socket, and lines written to stderr. A user callback is recorded
  and is taken to return without touching the table or the records.
\<close>

datatype event =
    Callback addr libwebsocket_callback_reasons addr "64 word"
  | Free addr
  | Shutdown int
  | Close int
  | SSL_shutdown addr
  | SSL_free addr
  | Send int "64 word"
  | Log string

record world =
  heap :: "addr \<rightharpoonup> libwebsocket"
  trace :: "event list"

text \<open>
  Where the C code has undefined behaviour (a dangling or wild pointer, a protocol pointer
  outside the array, a call through a NULL callback, an index outside an array) the model
  stops with a fault; \<open>Return\<close> is an early \<open>return\<close> of libwebsocket_create_server.
\<close>

datatype fault =
    Invalid_pointer addr
  | Invalid_protocol nat
  | Null_callback nat
  | Out_of_bounds nat
  | Return int

definition emit :: "event list \<Rightarrow> world \<Rightarrow> world" where
  "emit es w = w\<lparr>trace := trace w @ es\<rparr>"

section \<open>libwebsocket_close_and_free_session\<close>

text \<open>Lines 85 to 87: remember the state, then mark the record dead.\<close>

definition session_mark_dead :: "addr \<Rightarrow> libwebsocket \<Rightarrow> world \<Rightarrow> world" where
  "session_mark_dead p r w = w\<lparr>heap := (heap w)(p \<mapsto> r\<lparr>state := WSI_STATE_DEAD_SOCKET\<rparr>)\<rparr>"

text \<open>Lines 89 to 91: the CLOSED callback, guarded by the callback pointer and the old state.\<close>

definition session_closed_callback ::
  "libwebsocket_protocols \<Rightarrow> wsi_state \<Rightarrow> addr \<Rightarrow> libwebsocket \<Rightarrow> event list" where
  "session_closed_callback pr n p r =
     (if callback pr \<and> n = WSI_STATE_ESTABLISHED
      then [Callback p LWS_CALLBACK_CLOSED (user_space r) 0] else [])"

text \<open>Lines 93 to 115: token buffers, the transport, the user space and the record itself.\<close>

definition session_release :: "bool \<Rightarrow> libwebsocket \<Rightarrow> addr \<Rightarrow> event list" where
  "session_release ssl_on r p =
     map Free (filter (\<lambda>t. t \<noteq> 0) (map token (utf8_token r)))
     @ (if ssl_on then [SSL_shutdown (ssl r), Close (sock r), SSL_free (ssl r)]
        else [Shutdown (sock r), Close (sock r)])
     @ (if user_space r \<noteq> 0 then [Free (user_space r)] else [])
     @ [Free p]"

text \<open>
  Lines 82 to 91, the first half of the function: the guard for sentinels, the read of the
  state into \<open>n\<close>, the write of DEAD into the record, and the CLOSED callback, which runs
  on the record as the write has left it. The result is the world right after line 91.
\<close>

definition session_close ::
  "lws_constants \<Rightarrow> libwebsocket_protocols list \<Rightarrow> addr \<Rightarrow> world \<Rightarrow> fault + world" where
  "session_close K ps p w =
     (if unat p < LWS_MAX_PROTOCOLS K then Inr w
      else case heap w p of
        None \<Rightarrow> Inl (Invalid_pointer p)
      | Some r \<Rightarrow>
          if \<not> protocol r < length ps then Inl (Invalid_protocol (protocol r))
          else
            let n = state r;
                w1 = session_mark_dead p r w
            in Inr (emit (session_closed_callback (ps ! protocol r) n p r) w1))"

text \<open>
  Lines 93 to 115, the second half: the releases, read from the record as it is in memory
  by then, and \<open>free(wsi)\<close>, which takes the record out of the heap. A sentinel has returned
  at line 83 and never gets here.
\<close>

definition session_free :: "lws_constants \<Rightarrow> bool \<Rightarrow> addr \<Rightarrow> world \<Rightarrow> fault + world" where
  "session_free K ssl_on p w =
     (if unat p < LWS_MAX_PROTOCOLS K then Inr w
      else case heap w p of
        None \<Rightarrow> Inl (Invalid_pointer p)
      | Some r \<Rightarrow>
          let w3 = emit (session_release ssl_on r p) w
          in Inr (w3\<lparr>heap := (heap w3)(p := None)\<rparr>))"

definition libwebsocket_close_and_free_session ::
  "lws_constants \<Rightarrow> bool \<Rightarrow> libwebsocket_protocols list \<Rightarrow> addr \<Rightarrow> world \<Rightarrow> fault + world" where
  "libwebsocket_close_and_free_session K ssl_on ps p w =
     (case session_close K ps p w of
        Inl e \<Rightarrow> Inl e
      | Inr w2 \<Rightarrow> session_free K ssl_on p w2)"

section \<open>Broadcast delivery\<close>

text \<open>
  The fan-out of libwebsocket_poll_connections, lines 162 to 190, for the payload read from
  the rendezvous slot whose slot value is \<open>s\<close>: the loop over the slots from \<open>n\<close> on.
  \<open>protocol_index\<close> is an \<open>int\<close> compared with an \<open>unsigned long\<close>, so it is sign-extended
  first. Reading \<open>protocol->protocol_index\<close> and calling \<open>protocol->callback\<close> dereference
  the protocol pointer, which has to point into the array; calling a NULL callback is a
  fault.
\<close>

function broadcast_fan_out ::
  "lws_constants \<Rightarrow> libwebsocket_protocols list \<Rightarrow> libwebsocket_context \<Rightarrow> addr \<Rightarrow> 64 word
     \<Rightarrow> nat \<Rightarrow> world \<Rightarrow> fault + world" where
  "broadcast_fan_out K ps this s len n w =
     (if n < fds_count this then
        if unat (wsi this ! n) < LWS_MAX_PROTOCOLS K
        then broadcast_fan_out K ps this s len (n + 1) w
        else case heap w (wsi this ! n) of
          None \<Rightarrow> Inl (Invalid_pointer (wsi this ! n))
        | Some r \<Rightarrow>
            if state r \<noteq> WSI_STATE_ESTABLISHED
            then broadcast_fan_out K ps this s len (n + 1) w
            else if \<not> protocol r < length ps then Inl (Invalid_protocol (protocol r))
            else if scast (protocol_index (ps ! protocol r)) \<noteq> s
            then broadcast_fan_out K ps this s len (n + 1) w
            else if \<not> callback (ps ! protocol r) then Inl (Null_callback (protocol r))
            else broadcast_fan_out K ps this s len (n + 1)
                   (emit [Callback (wsi this ! n) LWS_CALLBACK_BROADCAST (user_space r) len] w)
      else Inr w)"
  by pat_completeness auto
termination
  by (relation "measure (\<lambda>(K, ps, this, s, len, n, w). fds_count this - n)") auto

text \<open>
  The loop of libwebsockets_broadcast, lines 743 to 762, for the protocol at index \<open>p\<close> of
  the array: the protocol pointers are compared without being dereferenced.
\<close>

function broadcast_in_loop ::
  "lws_constants \<Rightarrow> libwebsocket_protocols list \<Rightarrow> libwebsocket_context \<Rightarrow> nat \<Rightarrow> 64 word
     \<Rightarrow> nat \<Rightarrow> world \<Rightarrow> fault + world" where
  "broadcast_in_loop K ps this p len n w =
     (if n < fds_count this then
        if unat (wsi this ! n) < LWS_MAX_PROTOCOLS K
        then broadcast_in_loop K ps this p len (n + 1) w
        else case heap w (wsi this ! n) of
          None \<Rightarrow> Inl (Invalid_pointer (wsi this ! n))
        | Some r \<Rightarrow>
            if state r \<noteq> WSI_STATE_ESTABLISHED
            then broadcast_in_loop K ps this p len (n + 1) w
            else if protocol r \<noteq> p
            then broadcast_in_loop K ps this p len (n + 1) w
            else if \<not> protocol r < length ps then Inl (Invalid_protocol (protocol r))
            else if \<not> callback (ps ! protocol r) then Inl (Null_callback (protocol r))
            else broadcast_in_loop K ps this p len (n + 1)
                   (emit [Callback (wsi this ! n) LWS_CALLBACK_BROADCAST (user_space r) len] w)
      else Inr w)"
  by pat_completeness auto
termination
  by (relation "measure (\<lambda>(K, ps, this, p, len, n, w). fds_count this - n)") auto

text \<open>
  libwebsockets_broadcast: \<open>this\<close> is the context that \<open>protocol->owning_server\<close> points at.
  Without a user-side descriptor the call is in the poll process and delivers directly;
  otherwise the payload is sent down the rendezvous socket and \<open>send\<close>'s result returned.
\<close>

definition libwebsockets_broadcast ::
  "lws_constants \<Rightarrow> libwebsocket_protocols list \<Rightarrow> libwebsocket_context \<Rightarrow> int \<Rightarrow> nat
     \<Rightarrow> 64 word \<Rightarrow> world \<Rightarrow> fault + int \<times> world" where
  "libwebsockets_broadcast K ps this send_result p len w =
     (if \<not> p < length ps then Inl (Invalid_protocol p)
      else if broadcast_socket_user_fd (ps ! p) = 0 then
        (case broadcast_in_loop K ps this p len (count_protocols this + 1) w of
           Inl e \<Rightarrow> Inl e
         | Inr w' \<Rightarrow> Inr (0, w'))
      else Inr (send_result, emit [Send (broadcast_socket_user_fd (ps ! p)) len] w))"

section \<open>The service phase: libwebsocket_poll_connections\<close>

text \<open>
  What the operating system and the handshake and framing engine (libwebsocket_read,
  declared \<open>extern\<close>) answer when the loop services the slot \<open>client\<close>: the result of
  \<open>read\<close> on a rendezvous descriptor, of \<open>recv\<close> or \<open>SSL_read\<close> on a client descriptor, and
  the engine's result together with what it did to the records and the trace.
\<close>

record service_env =
  read_result :: "nat \<Rightarrow> int"
  recv_result :: "nat \<Rightarrow> int"
  libwebsocket_read :: "addr \<Rightarrow> int \<Rightarrow> world \<Rightarrow> int \<times> world"

text \<open>
  The label \<open>nuke_this\<close>, lines 228 to 232: the count goes down by one and the loop copies
  entry \<open>n + 1\<close> of both arrays over entry \<open>n\<close>.
\<close>

function nuke_shift :: "nat \<Rightarrow> libwebsocket_context \<Rightarrow> libwebsocket_context" where
  "nuke_shift n this =
     (if n < fds_count this then
        nuke_shift (n + 1)
          (this\<lparr>fds := (fds this)[n := fds this ! (n + 1)],
                wsi := (wsi this)[n := wsi this ! (n + 1)]\<rparr>)
      else this)"
  by pat_completeness auto
termination
  by (relation "measure (\<lambda>(n, this). fds_count this - n)") auto

definition nuke_this :: "nat \<Rightarrow> libwebsocket_context \<Rightarrow> libwebsocket_context" where
  "nuke_this client this = nuke_shift client (this\<lparr>fds_count := fds_count this - 1\<rparr>)"

text \<open>
  How the body of the loop ends for one slot: \<open>continue\<close>, or the jump to \<open>nuke_this\<close>
  followed by \<open>break\<close>.
\<close>

datatype service_step = Continue world | Nuke world

text \<open>
  The body of the loop for the slot \<open>client\<close>, lines 134 to 217. \<open>len\<close> is a \<open>size_t\<close>: the
  result of \<open>read\<close> is converted to an unsigned 64-bit word before \<open>len < 0\<close> is tested.
  \<open>n\<close> is an \<open>int\<close>.
\<close>

definition service_slot ::
  "lws_constants \<Rightarrow> libwebsocket_protocols list \<Rightarrow> service_env \<Rightarrow> libwebsocket_context
     \<Rightarrow> nat \<Rightarrow> world \<Rightarrow> fault + service_step" where
  "service_slot K ps env this client w =
     (if revents (fds this ! client) AND (POLLERR OR POLLHUP) \<noteq> 0 then
        (case libwebsocket_close_and_free_session K (use_ssl this) ps (wsi this ! client) w of
           Inl e \<Rightarrow> Inl e
         | Inr w' \<Rightarrow> Inr (Nuke w'))
      else if revents (fds this ! client) AND POLLIN = 0 then Inr (Continue w)
      else if unat (wsi this ! client) < LWS_MAX_PROTOCOLS K then
        (let len = (word_of_int (read_result env client) :: 64 word) in
         if len < 0
         then Inr (Continue (emit [Log ''Error receiving broadcast payload''] w))
         else case broadcast_fan_out K ps this (wsi this ! client) len
                     (count_protocols this + 1) w of
                Inl e \<Rightarrow> Inl e
              | Inr w' \<Rightarrow> Inr (Continue w'))
      else if use_ssl this \<and> heap w (wsi this ! client) = None
      then Inl (Invalid_pointer (wsi this ! client))
      else
        (let n = recv_result env client in
         if n < 0 then Inr (Continue (emit [Log ''Socket read returned''] w))
         else if n = 0 then
           (case libwebsocket_close_and_free_session K (use_ssl this) ps
                   (wsi this ! client) w of
              Inl e \<Rightarrow> Inl e
            | Inr w' \<Rightarrow> Inr (Nuke w'))
         else case libwebsocket_read env (wsi this ! client) n w of
                (res, w') \<Rightarrow> if res \<ge> 0 then Inr (Continue w') else Inr (Nuke w')))"

text \<open>The loop over the client slots, from \<open>client\<close> on.\<close>

function poll_connections_from ::
  "lws_constants \<Rightarrow> libwebsocket_protocols list \<Rightarrow> service_env \<Rightarrow> nat
     \<Rightarrow> libwebsocket_context \<Rightarrow> world \<Rightarrow> fault + libwebsocket_context \<times> world" where
  "poll_connections_from K ps env client this w =
     (if client < fds_count this then
        case service_slot K ps env this client w of
          Inl e \<Rightarrow> Inl e
        | Inr (Continue w') \<Rightarrow> poll_connections_from K ps env (client + 1) this w'
        | Inr (Nuke w') \<Rightarrow> Inr (nuke_this client this, w')
      else Inr (this, w))"
  by pat_completeness auto
termination
  by (relation "measure (\<lambda>(K, ps, env, client, this, w). fds_count this - client)") auto

definition libwebsocket_poll_connections ::
  "lws_constants \<Rightarrow> libwebsocket_protocols list \<Rightarrow> service_env
     \<Rightarrow> libwebsocket_context \<Rightarrow> world \<Rightarrow> fault + libwebsocket_context \<times> world" where
  "libwebsocket_poll_connections K ps env this w =
     poll_connections_from K ps env (count_protocols this + 1) this w"

section \<open>The accept phase of libwebsocket_create_server\<close>

text \<open>
  What the operating system, the allocator and the SSL library answer while the slot
  \<open>client\<close> is handled: the descriptor returned by \<open>accept\<close>, the address returned by
  \<open>malloc\<close> and the indeterminate content of the fresh record, and the results of
  \<open>SSL_new\<close> and \<open>SSL_accept\<close>.
\<close>

record accept_env =
  accept_result :: "nat \<Rightarrow> int"
  malloc_result :: "nat \<Rightarrow> addr"
  malloc_content :: "nat \<Rightarrow> libwebsocket"
  SSL_new_result :: "nat \<Rightarrow> addr"
  SSL_accept_result :: "nat \<Rightarrow> int"

text \<open>C's logical negation: 1 for zero, 0 for anything else.\<close>

definition c_lnot :: "16 word \<Rightarrow> 16 word" where
  "c_lnot x = (if x = 0 then 1 else 0)"

text \<open>
  Line 537, \<open>if (!this->fds[client].revents & POLLIN) continue;\<close>: the negation binds
  tighter than the conjunction.
\<close>

definition accept_skipped :: "pollfd \<Rightarrow> bool" where
  "accept_skipped pfd \<longleftrightarrow> c_lnot (revents pfd) AND POLLIN \<noteq> 0"

text \<open>The label \<open>fill_in_fds\<close>, lines 656 to 659.\<close>

definition fill_in_fds :: "int \<Rightarrow> libwebsocket_context \<Rightarrow> libwebsocket_context" where
  "fill_in_fds newfd this =
     this\<lparr>fds := (fds this)[fds_count this := \<lparr>fd = newfd, events = POLLIN, revents = 0\<rparr>],
          fds_count := fds_count this + 1\<rparr>"

text \<open>Lines 621 to 647: the fields of a fresh record that the code initialises.\<close>

definition init_wsi :: "lws_constants \<Rightarrow> int \<Rightarrow> libwebsocket \<Rightarrow> libwebsocket" where
  "init_wsi K newfd r =
     r\<lparr>sock := newfd, state := WSI_STATE_HTTP, name_buffer_pos := 0,
       utf8_token := replicate (WSI_TOKEN_COUNT K) \<lparr>token = 0, token_len = 0\<rparr>,
       protocol := 0, user_space := 0, ietf_spec_revision := 76\<rparr>"

text \<open>
  The body of the accept loop for the slot \<open>client\<close>, lines 537 to 659. A failed \<open>malloc\<close>
  makes libwebsocket_create_server return -1.
\<close>

definition accept_slot ::
  "lws_constants \<Rightarrow> accept_env \<Rightarrow> libwebsocket_context \<Rightarrow> nat \<Rightarrow> world
     \<Rightarrow> fault + libwebsocket_context \<times> world" where
  "accept_slot K env this client w =
     (if accept_skipped (fds this ! client) then Inr (this, w)
      else
        let newfd = accept_result env client in
        if newfd < 0 then Inr (this, emit [Log ''ERROR on accept''] w)
        else if fds_count this \<ge> MAX_CLIENTS K
        then Inr (this, emit [Log ''too busy'', Close newfd] w)
        else if client \<noteq> 0
        then Inr (fill_in_fds newfd
                    (this\<lparr>wsi := (wsi this)[fds_count this := of_nat (client - 1)]\<rparr>), w)
        else
          let a = malloc_result env client;
              this1 = this\<lparr>wsi := (wsi this)[fds_count this := a]\<rparr>
          in
          if a = 0 then Inl (Return (- 1))
          else if use_ssl this \<and> SSL_new_result env client = 0
          then Inr (this1, emit [Log ''SSL_new failed'', Free a] w)
          else if use_ssl this \<and> SSL_accept_result env client \<noteq> 1
          then Inr (this1, emit [SSL_free (SSL_new_result env client), Free a] w)
          else
            let r0 = (if use_ssl this
                      then (malloc_content env client)\<lparr>ssl := SSL_new_result env client\<rparr>
                      else malloc_content env client)
            in Inr (fill_in_fds newfd this1,
                    w\<lparr>heap := (heap w)(a \<mapsto> init_wsi K newfd r0)\<rparr>))"

text \<open>The loop over the listening slots, lines 535 to 661, from \<open>client\<close> on.\<close>

function accept_from ::
  "lws_constants \<Rightarrow> accept_env \<Rightarrow> nat \<Rightarrow> libwebsocket_context \<Rightarrow> world
     \<Rightarrow> fault + libwebsocket_context \<times> world" where
  "accept_from K env client this w =
     (if client < count_protocols this + 1 then
        case accept_slot K env this client w of
          Inl e \<Rightarrow> Inl e
        | Inr (this', w') \<Rightarrow> accept_from K env (client + 1) this' w'
      else Inr (this, w))"
  by pat_completeness auto
termination
  by (relation "measure (\<lambda>(K, env, client, this, w). count_protocols this + 1 - client)")
     (auto simp: accept_slot_def fill_in_fds_def Let_def split: if_splits)

section \<open>Bootstrap: the descriptor table of libwebsocket_create_server\<close>

text \<open>
  The answers of the operating system during bootstrap. Call 0 concerns the external
  listening socket, call \<open>k + 1\<close> the broadcast socket of the protocol at index \<open>k\<close>.
\<close>

record boot_env =
  socket_result :: "nat \<Rightarrow> int"
  bind_result :: "nat \<Rightarrow> int"
  getsockname_result :: "nat \<Rightarrow> int"
  sockname_port :: "nat \<Rightarrow> nat"

text \<open>
  Lines 365 to 416. The context comes from \<open>malloc\<close>: \<open>fds0\<close> and \<open>wsi0\<close> are the
  indeterminate initial contents of its arrays, and only \<open>fds[0].fd\<close> and \<open>fds[0].events\<close>
  are written.
\<close>

definition create_server_listener ::
  "boot_env \<Rightarrow> bool \<Rightarrow> pollfd list \<Rightarrow> addr list \<Rightarrow> fault + libwebsocket_context" where
  "create_server_listener env ssl_on fds0 wsi0 =
     (if socket_result env 0 < 0 then Inl (Return (- 1))
      else if bind_result env 0 < 0 then Inl (Return (- 1))
      else if length fds0 = 0 then Inl (Out_of_bounds 0)
      else Inr \<lparr>fds = fds0[0 := (fds0 ! 0)\<lparr>fd := socket_result env 0, events := POLLIN\<rparr>],
                wsi = wsi0, fds_count = 1, count_protocols = 0, use_ssl = ssl_on\<rparr>)"

text \<open>
  Lines 420 to 466: one broadcast listener per protocol, up to the first entry without a
  callback. Reading past the end of the protocol array and writing past the end of the
  context's arrays are faults.
\<close>

function create_server_protocols ::
  "boot_env \<Rightarrow> addr \<Rightarrow> libwebsocket_protocols list \<Rightarrow> libwebsocket_context
     \<Rightarrow> fault + libwebsocket_protocols list \<times> libwebsocket_context" where
  "create_server_protocols env this_ptr ps this =
     (if \<not> count_protocols this < length ps then Inl (Out_of_bounds (count_protocols this))
      else if \<not> callback (ps ! count_protocols this) then Inr (ps, this)
      else
        let k = count_protocols this;
            ps1 = ps[k := (ps ! k)\<lparr>owning_server := this_ptr, protocol_index := of_nat k\<rparr>]
        in
        if socket_result env (k + 1) < 0 then Inl (Return (- 1))
        else if bind_result env (k + 1) < 0 then Inl (Return (- 1))
        else if getsockname_result env (k + 1) < 0 then Inl (Return (- 1))
        else if \<not> (fds_count this < length (fds this) \<and> fds_count this < length (wsi this))
        then Inl (Out_of_bounds (fds_count this))
        else
          create_server_protocols env this_ptr
            (ps1[k := (ps1 ! k)\<lparr>broadcast_socket_port := sockname_port env (k + 1)\<rparr>])
            (this\<lparr>fds := (fds this)[fds_count this :=
                            (fds this ! fds_count this)
                              \<lparr>fd := socket_result env (k + 1), events := POLLIN\<rparr>],
                  wsi := (wsi this)[fds_count this := 0],
                  fds_count := fds_count this + 1,
                  count_protocols := k + 1\<rparr>))"
  by pat_completeness auto
termination
  by (relation "measure (\<lambda>(env, this_ptr, ps, this). length ps - count_protocols this)")
     (auto simp: Let_def)

definition create_server_table ::
  "boot_env \<Rightarrow> bool \<Rightarrow> addr \<Rightarrow> pollfd list \<Rightarrow> addr list \<Rightarrow> libwebsocket_protocols list
     \<Rightarrow> fault + libwebsocket_protocols list \<times> libwebsocket_context" where
  "create_server_table env ssl_on this_ptr fds0 wsi0 ps =
     (case create_server_listener env ssl_on fds0 wsi0 of
        Inl e \<Rightarrow> Inl e
      | Inr this \<Rightarrow> create_server_protocols env this_ptr ps this)"

section \<open>Observations used in the statements\<close>

definition is_callback :: "event \<Rightarrow> bool" where
  "is_callback e = (case e of Callback a reason u l \<Rightarrow> True | _ \<Rightarrow> False)"

text \<open>Teardown of the same slot value twice in a row.\<close>

definition close_twice ::
  "lws_constants \<Rightarrow> bool \<Rightarrow> libwebsocket_protocols list \<Rightarrow> addr \<Rightarrow> world \<Rightarrow> fault + world" where
  "close_twice K ssl_on ps p w =
     (case libwebsocket_close_and_free_session K ssl_on ps p w of
        Inl e \<Rightarrow> Inl e
      | Inr w1 \<Rightarrow> libwebsocket_close_and_free_session K ssl_on ps p w1)"

text \<open>
  The event is a BROADCAST callback with length \<open>len\<close> on a record of the heap \<open>h\<close> that is
  ESTABLISHED, is selected by \<open>sel\<close> and is handed its own user space.
\<close>

definition broadcast_target ::
  "(addr \<rightharpoonup> libwebsocket) \<Rightarrow> (libwebsocket \<Rightarrow> bool) \<Rightarrow> 64 word \<Rightarrow> event \<Rightarrow> bool" where
  "broadcast_target h sel len e =
     (case e of
        Callback a reason u l \<Rightarrow>
          reason = LWS_CALLBACK_BROADCAST \<and> l = len \<and>
          (case h a of
             None \<Rightarrow> False
           | Some r \<Rightarrow> state r = WSI_STATE_ESTABLISHED \<and> sel r \<and> u = user_space r)
      | _ \<Rightarrow> False)"

text \<open>
  Between \<open>w\<close> and \<open>w'\<close> no record changed, and everything added to the trace is a
  BROADCAST callback on an ESTABLISHED record selected by \<open>sel\<close>.
\<close>

definition fires_only_on :: "world \<Rightarrow> world \<Rightarrow> (libwebsocket \<Rightarrow> bool) \<Rightarrow> 64 word \<Rightarrow> bool" where
  "fires_only_on w w' sel len \<longleftrightarrow>
     heap w' = heap w \<and> take (length (trace w)) (trace w') = trace w \<and>
     list_all (broadcast_target (heap w) sel len) (drop (length (trace w)) (trace w'))"

text \<open>
  The entry at index \<open>k\<close> of the protocol array carries its own position as
  \<open>protocol_index\<close>, which is what lines 423 and 424 store during bootstrap.
\<close>

definition protocol_stamped :: "libwebsocket_protocols list \<Rightarrow> nat \<Rightarrow> bool" where
  "protocol_stamped ps k \<longleftrightarrow> k < length ps \<and> sint (protocol_index (ps ! k)) = int k"

text \<open>
  Every ESTABLISHED record referenced from a client slot is bound to an entry of the
  protocol array that carries its own position.
\<close>

definition established_stamped ::
  "libwebsocket_protocols list \<Rightarrow> libwebsocket_context \<Rightarrow> world \<Rightarrow> bool" where
  "established_stamped ps this w \<longleftrightarrow>
     list_all (\<lambda>n. case heap w (wsi this ! n) of
                     None \<Rightarrow> True
                   | Some r \<Rightarrow> state r = WSI_STATE_ESTABLISHED \<longrightarrow> protocol_stamped ps (protocol r))
       [count_protocols this + 1 ..< fds_count this]"

text \<open>
  Every client slot holds a sentinel or points at a record that is bound to an entry of the
  protocol array with a callback.
\<close>

definition slots_valid ::
  "lws_constants \<Rightarrow> libwebsocket_protocols list \<Rightarrow> libwebsocket_context \<Rightarrow> world \<Rightarrow> bool" where
  "slots_valid K ps this w \<longleftrightarrow>
     list_all (\<lambda>n. unat (wsi this ! n) < LWS_MAX_PROTOCOLS K \<or>
                   (case heap w (wsi this ! n) of
                      None \<Rightarrow> False
                    | Some r \<Rightarrow> protocol r < length ps \<and> callback (ps ! protocol r)))
       [count_protocols this + 1 ..< fds_count this]"

text \<open>
  The table right after bootstrap: the listener and one broadcast listener per protocol,
  NULL in the connection slot of each broadcast listener, and every protocol before the
  terminator with a callback and its position as \<open>protocol_index\<close>.
\<close>

definition table_bootstrapped ::
  "libwebsocket_protocols list \<Rightarrow> libwebsocket_context \<Rightarrow> bool" where
  "table_bootstrapped ps this \<longleftrightarrow>
     fds_count this = count_protocols this + 1 \<and>
     list_all (\<lambda>k. wsi this ! k = 0) [1 ..< count_protocols this + 1] \<and>
     list_all (\<lambda>k. callback (ps ! k) \<and> protocol_index (ps ! k) = of_nat k)
       [0 ..< count_protocols this]"

section \<open>Concrete inputs\<close>

definition example_constants :: lws_constants where
  "example_constants = \<lparr>LWS_MAX_PROTOCOLS = 10, MAX_CLIENTS = 8, WSI_TOKEN_COUNT = 2\<rparr>"

text \<open>Two protocols and the terminating entry, as bootstrap leaves them in the poll process.\<close>

definition example_protocols :: "libwebsocket_protocols list" where
  "example_protocols =
     [\<lparr>name = ''p0'', callback = True, owning_server = 0x1000, protocol_index = 0,
       broadcast_socket_port = 40000, broadcast_socket_user_fd = 0\<rparr>,
      \<lparr>name = ''p1'', callback = True, owning_server = 0x1000, protocol_index = 1,
       broadcast_socket_port = 40001, broadcast_socket_user_fd = 0\<rparr>,
      \<lparr>name = [], callback = False, owning_server = 0, protocol_index = 0,
       broadcast_socket_port = 0, broadcast_socket_user_fd = 0\<rparr>]"

definition example_wsi :: "int \<Rightarrow> wsi_state \<Rightarrow> nat \<Rightarrow> libwebsocket" where
  "example_wsi s st p =
     \<lparr>sock = s, state = st, name_buffer_pos = 0,
      utf8_token = [\<lparr>token = 0x3000, token_len = 4\<rparr>, \<lparr>token = 0, token_len = 0\<rparr>],
      protocol = p, user_space = 0, ietf_spec_revision = 76, ssl = 0\<rparr>"

text \<open>
  A table with the listener, two broadcast listeners, one accepted rendezvous connection
  of protocol 1 (slot 3, readable) and three clients: slot 4 idle, slot 5 hung up, slot 6
  readable.
\<close>

definition example_context :: libwebsocket_context where
  "example_context =
     \<lparr>fds = [\<lparr>fd = 3, events = POLLIN, revents = 0\<rparr>,
             \<lparr>fd = 4, events = POLLIN, revents = 0\<rparr>,
             \<lparr>fd = 5, events = POLLIN, revents = 0\<rparr>,
             \<lparr>fd = 6, events = POLLIN, revents = POLLIN\<rparr>,
             \<lparr>fd = 7, events = POLLIN, revents = 0\<rparr>,
             \<lparr>fd = 8, events = POLLIN, revents = POLLHUP\<rparr>,
             \<lparr>fd = 9, events = POLLIN, revents = POLLIN\<rparr>,
             \<lparr>fd = 0, events = 0, revents = 0\<rparr>],
      wsi = [0xDEAD, 0, 0, 1, 0x2000, 0x2100, 0x2200, 0],
      fds_count = 7, count_protocols = 2, use_ssl = False\<rparr>"

definition example_world :: world where
  "example_world =
     \<lparr>heap = [0x2000 \<mapsto> example_wsi 7 WSI_STATE_ESTABLISHED 0,
              0x2100 \<mapsto> example_wsi 8 WSI_STATE_ESTABLISHED 1,
              0x2200 \<mapsto> example_wsi 9 WSI_STATE_HTTP 0],
      trace = []\<rparr>"

text \<open>The concrete world after one BROADCAST callback of length 2 on the record at 0x2100.\<close>

definition example_delivery :: world where
  "example_delivery = emit [Callback 0x2100 LWS_CALLBACK_BROADCAST 0 2] example_world"

text \<open>
  Answers of the system for the service phase: \<open>read\<close> returns \<open>rd\<close>, \<open>recv\<close> returns \<open>rc\<close>,
  and the engine makes one RECEIVE callback and returns 0. Then the concrete world after the
  teardown of the record at 0x2100, and after a whole service phase on the concrete table.
\<close>

definition example_env :: "int \<Rightarrow> int \<Rightarrow> service_env" where
  "example_env rd rc =
     \<lparr>read_result = (\<lambda>client. rd), recv_result = (\<lambda>client. rc),
      libwebsocket_read =
        (\<lambda>a n w. (0, emit [Callback a LWS_CALLBACK_RECEIVE 0 (word_of_int n)] w))\<rparr>"

definition example_closed_5 :: world where
  "example_closed_5 =
     \<lparr>heap = (heap example_world)(0x2100 := None),
      trace = [Callback 0x2100 LWS_CALLBACK_CLOSED 0 0, Free 0x3000, Shutdown 8, Close 8,
               Free 0x2100]\<rparr>"

definition example_serviced :: world where
  "example_serviced =
     \<lparr>heap = (heap example_world)(0x2100 := None),
      trace = [Callback 0x2100 LWS_CALLBACK_BROADCAST 0 2,
               Callback 0x2100 LWS_CALLBACK_CLOSED 0 0, Free 0x3000, Shutdown 8, Close 8,
               Free 0x2100]\<rparr>"

text \<open>
  Answers of the system for the accept phase and for bootstrap, tables with a readable
  listener, with an erroring broadcast listener and with a readable broadcast listener,
  the protocol array as the user hands it over, and the indeterminate arrays of a fresh
  context with the table that bootstrap makes of them.
\<close>

definition example_accept_env :: accept_env where
  "example_accept_env =
     \<lparr>accept_result = (\<lambda>client. 12), malloc_result = (\<lambda>client. 0x2300),
      malloc_content = (\<lambda>client. example_wsi (- 1) WSI_STATE_DEAD_SOCKET 9),
      SSL_new_result = (\<lambda>client. 0), SSL_accept_result = (\<lambda>client. 0)\<rparr>"

definition example_full_constants :: lws_constants where
  "example_full_constants = example_constants\<lparr>MAX_CLIENTS := 7\<rparr>"

definition example_full_context :: libwebsocket_context where
  "example_full_context =
     example_context\<lparr>fds := (fds example_context)
                               [0 := \<lparr>fd = 3, events = POLLIN, revents = POLLIN\<rparr>]\<rparr>"

definition example_error_context :: libwebsocket_context where
  "example_error_context =
     example_context\<lparr>fds := (fds example_context)
                               [1 := \<lparr>fd = 4, events = POLLIN, revents = POLLERR\<rparr>]\<rparr>"

definition example_boot_env :: boot_env where
  "example_boot_env =
     \<lparr>socket_result = (\<lambda>k. 3 + int k), bind_result = (\<lambda>k. 0),
      getsockname_result = (\<lambda>k. 0), sockname_port = (\<lambda>k. 39999 + k)\<rparr>"

definition example_user_protocols :: "libwebsocket_protocols list" where
  "example_user_protocols =
     [\<lparr>name = ''p0'', callback = True, owning_server = 0, protocol_index = 0,
       broadcast_socket_port = 0, broadcast_socket_user_fd = 0\<rparr>,
      \<lparr>name = ''p1'', callback = True, owning_server = 0, protocol_index = 0,
       broadcast_socket_port = 0, broadcast_socket_user_fd = 0\<rparr>,
      \<lparr>name = [], callback = False, owning_server = 0, protocol_index = 0,
       broadcast_socket_port = 0, broadcast_socket_user_fd = 0\<rparr>]"

definition example_garbage :: pollfd where
  "example_garbage = \<lparr>fd = - 1, events = 0xFFFF, revents = 0xFFFF\<rparr>"

definition example_fds0 :: "pollfd list" where
  "example_fds0 =
     [example_garbage, example_garbage, example_garbage, example_garbage,
      example_garbage, example_garbage, example_garbage, example_garbage]"

definition example_wsi0 :: "addr list" where
  "example_wsi0 = [0xDEAD, 0xDEAD, 0xDEAD, 0xDEAD, 0xDEAD, 0xDEAD, 0xDEAD, 0xDEAD]"

definition example_booted_context :: libwebsocket_context where
  "example_booted_context =
     \<lparr>fds = [\<lparr>fd = 3, events = POLLIN, revents = 0xFFFF\<rparr>,
             \<lparr>fd = 4, events = POLLIN, revents = 0xFFFF\<rparr>,
             \<lparr>fd = 5, events = POLLIN, revents = 0xFFFF\<rparr>,
             example_garbage, example_garbage, example_garbage, example_garbage,
             example_garbage],
      wsi = [0xDEAD, 0, 0, 0xDEAD, 0xDEAD, 0xDEAD, 0xDEAD, 0xDEAD],
      fds_count = 3, count_protocols = 2, use_ssl = False\<rparr>"

definition example_rendezvous_context :: libwebsocket_context where
  "example_rendezvous_context =
     example_context\<lparr>fds := (fds example_context)
                               [2 := \<lparr>fd = 5, events = POLLIN, revents = POLLIN\<rparr>]\<rparr>"

section \<open>Teardown\<close>

lemma is_callback_simps [simp]:
  "is_callback (Callback a reason u l)" "\<not> is_callback (Free a)" "\<not> is_callback (Shutdown i)"
  "\<not> is_callback (Close i)" "\<not> is_callback (SSL_shutdown a)" "\<not> is_callback (SSL_free a)"
  "\<not> is_callback (Send i l)" "\<not> is_callback (Log s)"
  by (simp_all add: is_callback_def)

lemma heap_emit [simp]: "heap (emit es w) = heap w"
  by (simp add: emit_def)

lemma trace_emit [simp]: "trace (emit es w) = trace w @ es"
  by (simp add: emit_def)

lemma filter_callback_release [simp]:
  "filter is_callback (session_release ssl_on r p) = []"
  by (auto simp: session_release_def filter_empty_conv)

text \<open>The function in one piece: what its two halves do one after the other.\<close>

lemma close_and_free_session_unfold:
  "libwebsocket_close_and_free_session K ssl_on ps p w =
     (if unat p < LWS_MAX_PROTOCOLS K then Inr w
      else case heap w p of
        None \<Rightarrow> Inl (Invalid_pointer p)
      | Some r \<Rightarrow>
          if \<not> protocol r < length ps then Inl (Invalid_protocol (protocol r))
          else
            let n = state r;
                w1 = session_mark_dead p r w;
                w2 = emit (session_closed_callback (ps ! protocol r) n p r) w1;
                w3 = emit (session_release ssl_on r p) w2
            in Inr (w3\<lparr>heap := (heap w3)(p := None)\<rparr>))"
  by (simp add: libwebsocket_close_and_free_session_def session_close_def session_free_def
      Let_def emit_def session_mark_dead_def session_release_def split: option.splits)

lemma count_callback_release [simp]:
  "count_list (session_release ssl_on r p) (Callback a reason u l) = 0"
  by (auto simp: count_list_0_iff session_release_def)



text \<open>
  C5, as the code has it. On a slot value below LWS_MAX_PROTOCOLS teardown changes nothing,
  once or twice in a row. On a connection record one teardown makes at most one callback
  and releases the record, so a second teardown of the same reference no longer finds a
  record: it is an access to freed memory, not a repetition without effect.
\<close>

theorem teardown_sentinel_noop_record_released:
  assumes "unat s < LWS_MAX_PROTOCOLS K"
    and "LWS_MAX_PROTOCOLS K \<le> unat p" and "heap w p = Some r" and "protocol r < length ps"
  shows "libwebsocket_close_and_free_session K ssl_on ps s w = Inr w
       \<and> close_twice K ssl_on ps s w = Inr w
       \<and> (\<exists>w1 es. libwebsocket_close_and_free_session K ssl_on ps p w = Inr w1
             \<and> heap w1 p = None \<and> trace w1 = trace w @ es
             \<and> length (filter is_callback es) \<le> 1)
       \<and> close_twice K ssl_on ps p w = Inl (Invalid_pointer p)"
  using assms
  by (simp add: close_twice_def close_and_free_session_unfold Let_def emit_def
      session_mark_dead_def session_closed_callback_def)

text \<open>The statement above at the sentinel 1 and at the ESTABLISHED record at 0x2000.\<close>

theorem teardown_sentinel_noop_record_released_witness:
  "unat (1 :: addr) < LWS_MAX_PROTOCOLS example_constants
   \<and> LWS_MAX_PROTOCOLS example_constants \<le> unat (0x2000 :: addr)
   \<and> heap example_world 0x2000 = Some (example_wsi 7 WSI_STATE_ESTABLISHED 0)
   \<and> protocol (example_wsi 7 WSI_STATE_ESTABLISHED 0) < length example_protocols
   \<and> libwebsocket_close_and_free_session example_constants False example_protocols 1
        example_world = Inr example_world
   \<and> close_twice example_constants False example_protocols 1 example_world
        = Inr example_world
   \<and> (\<exists>w1 es. libwebsocket_close_and_free_session example_constants False example_protocols
                  0x2000 example_world = Inr w1
             \<and> heap w1 0x2000 = None \<and> trace w1 = trace example_world @ es
             \<and> length (filter is_callback es) \<le> 1)
   \<and> close_twice example_constants False example_protocols 0x2000 example_world
        = Inl (Invalid_pointer 0x2000)"
proof -
  have h0: "unat (1 :: addr) < LWS_MAX_PROTOCOLS example_constants"
    by (simp add: example_constants_def)
  have h1: "LWS_MAX_PROTOCOLS example_constants \<le> unat (0x2000 :: addr)"
    by (simp add: example_constants_def)
  have h2: "heap example_world 0x2000 = Some (example_wsi 7 WSI_STATE_ESTABLISHED 0)"
    by (simp add: example_world_def)
  have h3: "protocol (example_wsi 7 WSI_STATE_ESTABLISHED 0) < length example_protocols"
    by (simp add: example_wsi_def example_protocols_def)
  show ?thesis
    using teardown_sentinel_noop_record_released [OF h0 h1 h2 h3, of False] h0 h1 h2 h3
    by simp
qed

text \<open>
  C5 as stated fails on a connection record: the first teardown frees the record, so the
  second one does not run to its end as a no-op but faults on the dangling reference.
\<close>

theorem teardown_twice_on_record_faults:
  "close_twice example_constants False example_protocols 0x2000 example_world
     = Inl (Invalid_pointer 0x2000)"
  by (simp add: close_twice_def close_and_free_session_unfold Let_def emit_def
      session_mark_dead_def example_constants_def example_protocols_def example_wsi_def
      example_world_def)

section \<open>Broadcast delivery\<close>

declare broadcast_in_loop.simps [simp del] broadcast_fan_out.simps [simp del]

lemma fires_only_onI:
  "heap w' = heap w \<and>
   (\<exists>es. trace w' = trace w @ es \<and> list_all (broadcast_target (heap w) sel len) es)
   \<Longrightarrow> fires_only_on w w' sel len"
  by (auto simp: fires_only_on_def)

lemma established_stamped_iff:
  "established_stamped ps this w \<longleftrightarrow>
     (\<forall>m. count_protocols this + 1 \<le> m \<and> m < fds_count this \<longrightarrow>
            (case heap w (wsi this ! m) of
               None \<Rightarrow> True
             | Some r \<Rightarrow> state r = WSI_STATE_ESTABLISHED \<longrightarrow> protocol_stamped ps (protocol r)))"
  by (auto simp: established_stamped_def list_all_iff)

text \<open>What the loop of libwebsockets_broadcast adds to the trace, from any slot on.\<close>

lemma in_loop_targets:
  "broadcast_in_loop K ps this p len n w = Inr w' \<Longrightarrow>
     heap w' = heap w \<and>
     (\<exists>es. trace w' = trace w @ es \<and>
           list_all (broadcast_target (heap w) (\<lambda>r. protocol r = p) len) es)"
proof (induction K ps this p len n w rule: broadcast_in_loop.induct)
  case (1 K ps this p len n w)
  from "1.prems" "1.IH" show ?case
    by (subst (asm) broadcast_in_loop.simps)
       (auto split: if_splits option.splits simp: emit_def broadcast_target_def)
qed

text \<open>The same for the fan-out of the service phase, which matches on \<open>protocol_index\<close>.\<close>

lemma fan_out_targets:
  "broadcast_fan_out K ps this s len n w = Inr w' \<Longrightarrow>
     heap w' = heap w \<and>
     (\<exists>es. trace w' = trace w @ es \<and>
           list_all (broadcast_target (heap w)
              (\<lambda>r. protocol r < length ps \<and> scast (protocol_index (ps ! protocol r)) = s) len) es)"
proof (induction K ps this s len n w rule: broadcast_fan_out.induct)
  case (1 K ps this s len n w)
  from "1.prems" "1.IH" show ?case
    by (subst (asm) broadcast_fan_out.simps)
       (auto split: if_splits option.splits simp: emit_def broadcast_target_def)
qed

text \<open>
  The sentinel of the protocol at index \<open>p\<close> is the \<open>int\<close> \<open>p\<close> cast to a pointer. For an
  entry that carries its position, the sign-extended \<open>protocol_index\<close> equals that sentinel
  exactly when the entry is the one at \<open>p\<close>.
\<close>

lemma stamped_index_match:
  assumes "protocol_stamped ps q" and "p < 2 ^ 31"
  shows "(scast (protocol_index (ps ! q)) = (of_nat p :: 64 word)) \<longleftrightarrow> q = p"
proof -
  have q: "int q < 2 ^ 31"
    using assms(1) sint_lt [of "protocol_index (ps ! q)"]
    by (simp add: protocol_stamped_def)
  have p: "p < 2 ^ 64"
    using assms(2) by (rule less_trans) simp
  have "scast (protocol_index (ps ! q)) = (of_nat q :: 64 word)"
    using assms(1) by (simp add: protocol_stamped_def scast_eq)
  moreover have "(of_nat q :: 64 word) = of_nat p \<longleftrightarrow> q = p"
  proof
    assume "(of_nat q :: 64 word) = of_nat p"
    then have "unat (of_nat q :: 64 word) = unat (of_nat p :: 64 word)" by simp
    moreover have "unat (of_nat q :: 64 word) = q"
      using q by (simp add: unat_of_nat take_bit_nat_eq_self)
    moreover have "unat (of_nat p :: 64 word) = p"
      using p by (simp add: unat_of_nat)
    ultimately show "q = p" by simp
  qed simp
  ultimately show ?thesis by simp
qed

text \<open>The two loops agree from any slot on, fault for fault and event for event.\<close>

lemma in_loop_eq_fan_out:
  "p < 2 ^ 31 \<Longrightarrow> (\<forall>m. n \<le> m \<and> m < fds_count this \<longrightarrow>
            (case heap w (wsi this ! m) of
               None \<Rightarrow> True
             | Some r \<Rightarrow> state r = WSI_STATE_ESTABLISHED \<longrightarrow> protocol_stamped ps (protocol r)))
         \<Longrightarrow> broadcast_in_loop K ps this p len n w
             = broadcast_fan_out K ps this (of_nat p) len n w"
proof (induction K ps this p len n w rule: broadcast_in_loop.induct)
  case (1 K ps this p len n w)
  note stamped = "1.prems"(1)
  show ?case
  proof (cases "n < fds_count this")
    case False
    then show ?thesis
      by (subst broadcast_in_loop.simps, subst broadcast_fan_out.simps) simp
  next
    case True
    have later: "\<forall>m. n + 1 \<le> m \<and> m < fds_count this \<longrightarrow>
            (case heap w (wsi this ! m) of
               None \<Rightarrow> True
             | Some r \<Rightarrow> state r = WSI_STATE_ESTABLISHED \<longrightarrow> protocol_stamped ps (protocol r))"
      using "1.prems"(2) by auto
    have here: "case heap w (wsi this ! n) of
               None \<Rightarrow> True
             | Some r \<Rightarrow> state r = WSI_STATE_ESTABLISHED \<longrightarrow> protocol_stamped ps (protocol r)"
      using "1.prems"(2) True by auto
    show ?thesis
    proof (cases "unat (wsi this ! n) < LWS_MAX_PROTOCOLS K")
      case small: True
      have "broadcast_in_loop K ps this p len (n + 1) w
            = broadcast_fan_out K ps this (of_nat p) len (n + 1) w"
        using "1.IH"(1) True small stamped later by simp
      then show ?thesis
        using True small
        by (subst broadcast_in_loop.simps, subst broadcast_fan_out.simps) simp
    next
      case big: False
      show ?thesis
      proof (cases "heap w (wsi this ! n)")
        case None
        then show ?thesis
          using True big
          by (subst broadcast_in_loop.simps, subst broadcast_fan_out.simps) simp
      next
        case (Some r)
        show ?thesis
        proof (cases "state r = WSI_STATE_ESTABLISHED")
          case dead: False
          have "broadcast_in_loop K ps this p len (n + 1) w
                = broadcast_fan_out K ps this (of_nat p) len (n + 1) w"
            using "1.IH"(2) True big Some dead stamped later by simp
          then show ?thesis
            using True big Some dead
            by (subst broadcast_in_loop.simps, subst broadcast_fan_out.simps) simp
        next
          case est: True
          have sq: "protocol_stamped ps (protocol r)"
            using here Some est by simp
          have inrange: "protocol r < length ps"
            using sq by (simp add: protocol_stamped_def)
          have match: "(scast (protocol_index (ps ! protocol r)) = (of_nat p :: 64 word))
                        \<longleftrightarrow> protocol r = p"
            using stamped_index_match [OF sq stamped] .
          show ?thesis
          proof (cases "protocol r = p")
            case other: False
            have "broadcast_in_loop K ps this p len (n + 1) w
                  = broadcast_fan_out K ps this (of_nat p) len (n + 1) w"
              using "1.IH"(3) True big Some est other stamped later by simp
            then show ?thesis
              using True big Some est other inrange match
              by (subst broadcast_in_loop.simps, subst broadcast_fan_out.simps) simp
          next
            case same: True
            show ?thesis
            proof (cases "callback (ps ! protocol r)")
              case False
              then show ?thesis
                using True big Some est same inrange match
                by (subst broadcast_in_loop.simps, subst broadcast_fan_out.simps) simp
            next
              case cb: True
              let ?w1 = "emit [Callback (wsi this ! n) LWS_CALLBACK_BROADCAST (user_space r) len] w"
              have "broadcast_in_loop K ps this p len (n + 1) ?w1
                    = broadcast_fan_out K ps this (of_nat p) len (n + 1) ?w1"
                using "1.IH"(4) True big Some est same inrange cb stamped later by simp
              then show ?thesis
                using True big Some est same inrange match cb
                by (subst broadcast_in_loop.simps, subst broadcast_fan_out.simps) simp
            qed
          qed
        qed
      qed
    qed
  qed
qed

lemma fan_out_returns:
  "(\<forall>m. n \<le> m \<and> m < fds_count this \<longrightarrow>
        unat (wsi this ! m) < LWS_MAX_PROTOCOLS K \<or>
        (case heap w (wsi this ! m) of
           None \<Rightarrow> False
         | Some r \<Rightarrow> protocol r < length ps \<and> callback (ps ! protocol r)))
   \<Longrightarrow> \<exists>w'. broadcast_fan_out K ps this s len n w = Inr w'"
proof (induction K ps this s len n w rule: broadcast_fan_out.induct)
  case (1 K ps this s len n w)
  show ?case
  proof (cases "n < fds_count this")
    case False
    then show ?thesis by (subst broadcast_fan_out.simps) simp
  next
    case True
    have here: "unat (wsi this ! n) < LWS_MAX_PROTOCOLS K \<or>
        (case heap w (wsi this ! n) of
           None \<Rightarrow> False
         | Some r \<Rightarrow> protocol r < length ps \<and> callback (ps ! protocol r))"
      using "1.prems" True by auto
    have later: "\<And>v. \<forall>m. n + 1 \<le> m \<and> m < fds_count this \<longrightarrow>
        unat (wsi this ! m) < LWS_MAX_PROTOCOLS K \<or>
        (case heap (emit v w) (wsi this ! m) of
           None \<Rightarrow> False
         | Some r \<Rightarrow> protocol r < length ps \<and> callback (ps ! protocol r))"
      using "1.prems" by auto
    from later [of "[]"] have later0: "\<forall>m. n + 1 \<le> m \<and> m < fds_count this \<longrightarrow>
        unat (wsi this ! m) < LWS_MAX_PROTOCOLS K \<or>
        (case heap w (wsi this ! m) of
           None \<Rightarrow> False
         | Some r \<Rightarrow> protocol r < length ps \<and> callback (ps ! protocol r))"
      by simp
    show ?thesis
      using True here "1.IH"(1) [OF True _ later0] "1.IH"(2) [OF True _ _ _ later0]
        "1.IH"(3) [OF True _ _ _ _ _ later0] "1.IH"(4) [OF True _ _ _ _ _ _ later]
      by (subst broadcast_fan_out.simps) (auto split: option.splits)
  qed
qed

lemma in_loop_returns:
  "(\<forall>m. n \<le> m \<and> m < fds_count this \<longrightarrow>
        unat (wsi this ! m) < LWS_MAX_PROTOCOLS K \<or>
        (case heap w (wsi this ! m) of
           None \<Rightarrow> False
         | Some r \<Rightarrow> protocol r < length ps \<and> callback (ps ! protocol r)))
   \<Longrightarrow> \<exists>w'. broadcast_in_loop K ps this p len n w = Inr w'"
proof (induction K ps this p len n w rule: broadcast_in_loop.induct)
  case (1 K ps this p len n w)
  show ?case
  proof (cases "n < fds_count this")
    case False
    then show ?thesis by (subst broadcast_in_loop.simps) simp
  next
    case True
    have here: "unat (wsi this ! n) < LWS_MAX_PROTOCOLS K \<or>
        (case heap w (wsi this ! n) of
           None \<Rightarrow> False
         | Some r \<Rightarrow> protocol r < length ps \<and> callback (ps ! protocol r))"
      using "1.prems" True by auto
    have later: "\<And>v. \<forall>m. n + 1 \<le> m \<and> m < fds_count this \<longrightarrow>
        unat (wsi this ! m) < LWS_MAX_PROTOCOLS K \<or>
        (case heap (emit v w) (wsi this ! m) of
           None \<Rightarrow> False
         | Some r \<Rightarrow> protocol r < length ps \<and> callback (ps ! protocol r))"
      using "1.prems" by auto
    from later [of "[]"] have later0: "\<forall>m. n + 1 \<le> m \<and> m < fds_count this \<longrightarrow>
        unat (wsi this ! m) < LWS_MAX_PROTOCOLS K \<or>
        (case heap w (wsi this ! m) of
           None \<Rightarrow> False
         | Some r \<Rightarrow> protocol r < length ps \<and> callback (ps ! protocol r))"
      by simp
    show ?thesis
      using True here "1.IH"(1) [OF True _ later0] "1.IH"(2) [OF True _ _ _ later0]
        "1.IH"(3) [OF True _ _ _ _ later0] "1.IH"(4) [OF True _ _ _ _ _ _ later]
      by (subst broadcast_in_loop.simps) (auto split: option.splits)
  qed
qed

text \<open>
  Delivery runs to its end on a table whose client slots hold sentinels or point at records
  bound to a protocol with a callback, so the statements about returned worlds below are
  about every such table.
\<close>

lemma broadcast_delivery_returns:
  assumes "slots_valid K ps this w"
  shows "\<exists>w'. broadcast_fan_out K ps this s len (count_protocols this + 1) w = Inr w'"
    and "\<exists>w'. broadcast_in_loop K ps this p len (count_protocols this + 1) w = Inr w'"
proof -
  have v: "\<forall>m. count_protocols this + 1 \<le> m \<and> m < fds_count this \<longrightarrow>
        unat (wsi this ! m) < LWS_MAX_PROTOCOLS K \<or>
        (case heap w (wsi this ! m) of
           None \<Rightarrow> False
         | Some r \<Rightarrow> protocol r < length ps \<and> callback (ps ! protocol r))"
    using assms by (auto simp: slots_valid_def list_all_iff)
  show "\<exists>w'. broadcast_fan_out K ps this s len (count_protocols this + 1) w = Inr w'"
    using v by (rule fan_out_returns)
  show "\<exists>w'. broadcast_in_loop K ps this p len (count_protocols this + 1) w = Inr w'"
    using v by (rule in_loop_returns)
qed

text \<open>The concrete table: a broadcast for protocol 1 reaches the record at 0x2100 only.\<close>

lemma example_established_stamped:
  "established_stamped example_protocols example_context example_world"
  by (simp add: established_stamped_def example_context_def example_world_def example_wsi_def
      protocol_stamped_def example_protocols_def)

lemma example_in_loop:
  "broadcast_in_loop example_constants example_protocols example_context 1 2
     (count_protocols example_context + 1) example_world = Inr example_delivery"
  by (simp add: broadcast_in_loop.simps example_constants_def example_protocols_def
      example_context_def example_world_def example_wsi_def example_delivery_def)

lemma example_fan_out:
  "broadcast_fan_out example_constants example_protocols example_context 1 2
     (count_protocols example_context + 1) example_world = Inr example_delivery"
  by (simp add: broadcast_fan_out.simps example_constants_def example_protocols_def
      example_context_def example_world_def example_wsi_def example_delivery_def)

lemma example_broadcast:
  "libwebsockets_broadcast example_constants example_protocols example_context 0 1 2
     example_world = Inr (0, example_delivery)"
proof -
  have "1 < length example_protocols" and "broadcast_socket_user_fd (example_protocols ! 1) = 0"
    by (simp_all add: example_protocols_def)
  then show ?thesis
    using example_in_loop by (simp add: libwebsockets_broadcast_def)
qed

text \<open>
  C1. A call of libwebsockets_broadcast for the protocol at index \<open>p\<close> that takes the in-loop
  path, and the fan-out of the service phase for a payload read from a rendezvous slot with
  value \<open>s\<close>, leave every record as it was and add nothing to the trace but BROADCAST
  callbacks on records whose state is ESTABLISHED and whose protocol is the requested one:
  the protocol pointer equals \<open>p\<close> on the in-loop path, the protocol's index equals \<open>s\<close> in
  the fan-out, which is the same protocol \<open>p\<close> when \<open>s\<close> is the sentinel of \<open>p\<close> (the \<open>int\<close>
  \<open>p\<close> cast to a pointer) and the protocols of the ESTABLISHED records carry their
  positions.
\<close>

theorem broadcast_fires_only_on_established_of_protocol:
  "(libwebsockets_broadcast K ps this sr p len w = Inr (res, w1)
      \<and> broadcast_socket_user_fd (ps ! p) = 0
      \<longrightarrow> fires_only_on w w1 (\<lambda>r. protocol r = p) len)
   \<and> (broadcast_fan_out K ps this s len (count_protocols this + 1) w = Inr w2
      \<longrightarrow> fires_only_on w w2
            (\<lambda>r. protocol r < length ps \<and> scast (protocol_index (ps ! protocol r)) = s) len)
   \<and> (broadcast_fan_out K ps this (of_nat p) len (count_protocols this + 1) w = Inr w3
      \<and> p < 2 ^ 31 \<and> established_stamped ps this w
      \<longrightarrow> fires_only_on w w3 (\<lambda>r. protocol r = p) len)"
proof (intro conjI impI)
  assume a: "libwebsockets_broadcast K ps this sr p len w = Inr (res, w1)
      \<and> broadcast_socket_user_fd (ps ! p) = 0"
  then have "broadcast_in_loop K ps this p len (count_protocols this + 1) w = Inr w1"
    by (auto simp: libwebsockets_broadcast_def split: if_splits sum.splits)
  then show "fires_only_on w w1 (\<lambda>r. protocol r = p) len"
    by (intro fires_only_onI in_loop_targets)
next
  assume "broadcast_fan_out K ps this s len (count_protocols this + 1) w = Inr w2"
  then show "fires_only_on w w2
            (\<lambda>r. protocol r < length ps \<and> scast (protocol_index (ps ! protocol r)) = s) len"
    by (intro fires_only_onI fan_out_targets)
next
  assume a: "broadcast_fan_out K ps this (of_nat p) len (count_protocols this + 1) w = Inr w3
      \<and> p < 2 ^ 31 \<and> established_stamped ps this w"
  then have "broadcast_in_loop K ps this p len (count_protocols this + 1) w = Inr w3"
    using in_loop_eq_fan_out [where p = p and n = "count_protocols this + 1" and this = this
                                and w = w and ps = ps and K = K and len = len]
    by (simp add: established_stamped_iff)
  then show "fires_only_on w w3 (\<lambda>r. protocol r = p) len"
    by (intro fires_only_onI in_loop_targets)
qed

text \<open>The statement above for protocol 1 on the concrete table, on both paths.\<close>

theorem broadcast_fires_only_on_established_of_protocol_witness:
  "libwebsockets_broadcast example_constants example_protocols example_context 0 1 2
      example_world = Inr (0, example_delivery)
   \<and> broadcast_socket_user_fd (example_protocols ! 1) = 0
   \<and> broadcast_fan_out example_constants example_protocols example_context 1 2
        (count_protocols example_context + 1) example_world = Inr example_delivery
   \<and> (1 :: nat) < 2 ^ 31
   \<and> established_stamped example_protocols example_context example_world
   \<and> fires_only_on example_world example_delivery (\<lambda>r. protocol r = 1) 2
   \<and> fires_only_on example_world example_delivery
        (\<lambda>r. protocol r < length example_protocols
             \<and> scast (protocol_index (example_protocols ! protocol r)) = (1 :: addr)) 2"
proof -
  have fd: "broadcast_socket_user_fd (example_protocols ! 1) = 0"
    by (simp add: example_protocols_def)
  show ?thesis
    using broadcast_fires_only_on_established_of_protocol
            [where K = example_constants and ps = example_protocols and this = example_context
               and sr = 0 and p = 1 and len = 2 and w = example_world and res = 0
               and ?w1.0 = example_delivery and s = 1 and ?w2.0 = example_delivery
               and ?w3.0 = example_delivery]
          example_broadcast example_fan_out example_established_stamped fd
    by simp
qed

text \<open>
  C10. When the protocol of every ESTABLISHED record referenced from a client slot is an
  entry of the protocol array that carries its position as \<open>protocol_index\<close>, the loop of
  libwebsockets_broadcast for the protocol at index \<open>p\<close> and the fan-out of the service phase
  for the sentinel of \<open>p\<close> (the \<open>int\<close> \<open>p\<close> cast to a pointer) have the same result: the same
  callbacks on the same records in the same order, or the same fault. So the in-loop path
  of libwebsockets_broadcast returns 0 with exactly what the fan-out delivers.
\<close>

theorem broadcast_in_loop_equals_fan_out:
  assumes "p < 2 ^ 31" and "established_stamped ps this w"
  shows "broadcast_in_loop K ps this p len (count_protocols this + 1) w
           = broadcast_fan_out K ps this (of_nat p) len (count_protocols this + 1) w
       \<and> (p < length ps \<and> broadcast_socket_user_fd (ps ! p) = 0 \<longrightarrow>
            libwebsockets_broadcast K ps this sr p len w
              = map_sum id (Pair 0)
                  (broadcast_fan_out K ps this (of_nat p) len (count_protocols this + 1) w))"
proof -
  have eq: "broadcast_in_loop K ps this p len (count_protocols this + 1) w
           = broadcast_fan_out K ps this (of_nat p) len (count_protocols this + 1) w"
    using assms in_loop_eq_fan_out [where p = p and n = "count_protocols this + 1" and this = this
                                and w = w and ps = ps and K = K and len = len]
    by (simp add: established_stamped_iff)
  then show ?thesis
    by (auto simp: libwebsockets_broadcast_def split: sum.splits)
qed

text \<open>The statement above for protocol 1 on the concrete table.\<close>

theorem broadcast_in_loop_equals_fan_out_witness:
  "(1 :: nat) < 2 ^ 31
   \<and> established_stamped example_protocols example_context example_world
   \<and> 1 < length example_protocols
   \<and> broadcast_socket_user_fd (example_protocols ! 1) = 0
   \<and> broadcast_in_loop example_constants example_protocols example_context 1 2
        (count_protocols example_context + 1) example_world
       = broadcast_fan_out example_constants example_protocols example_context 1 2
           (count_protocols example_context + 1) example_world
   \<and> libwebsockets_broadcast example_constants example_protocols example_context 0 1 2
        example_world
       = map_sum id (Pair 0)
           (broadcast_fan_out example_constants example_protocols example_context 1 2
              (count_protocols example_context + 1) example_world)"
proof -
  have fd: "1 < length example_protocols"
    "broadcast_socket_user_fd (example_protocols ! 1) = 0"
    by (simp_all add: example_protocols_def)
  have small: "(1 :: nat) < 2 ^ 31"
    by simp
  show ?thesis
    using broadcast_in_loop_equals_fan_out
            [OF small example_established_stamped, of example_constants 2 0]
          example_established_stamped fd
    by simp
qed

section \<open>The service phase\<close>

declare nuke_shift.simps [simp del] poll_connections_from.simps [simp del]

lemma nuke_shift_counts [simp]:
  "fds_count (nuke_shift n this) = fds_count this"
  "count_protocols (nuke_shift n this) = count_protocols this"
  "use_ssl (nuke_shift n this) = use_ssl this"
  "length (fds (nuke_shift n this)) = length (fds this)"
  "length (wsi (nuke_shift n this)) = length (wsi this)"
  by (induction n this rule: nuke_shift.induct; subst nuke_shift.simps; simp)+

lemma nuke_shift_nth:
  "fds_count this \<le> length (fds this) \<Longrightarrow> fds_count this \<le> length (wsi this) \<Longrightarrow>
     fds (nuke_shift n this) ! j
       = (if n \<le> j \<and> j < fds_count this then fds this ! (j + 1) else fds this ! j)
   \<and> wsi (nuke_shift n this) ! j
       = (if n \<le> j \<and> j < fds_count this then wsi this ! (j + 1) else wsi this ! j)"
proof (induction n this rule: nuke_shift.induct)
  case (1 n this)
  show ?case
  proof (cases "n < fds_count this")
    case False
    then have "nuke_shift n this = this"
      by (subst nuke_shift.simps) simp
    then show ?thesis using False by auto
  next
    case True
    let ?this' = "this\<lparr>fds := (fds this)[n := fds this ! (n + 1)],
                       wsi := (wsi this)[n := wsi this ! (n + 1)]\<rparr>"
    have step: "nuke_shift n this = nuke_shift (n + 1) ?this'"
      using True by (subst nuke_shift.simps) simp
    have ih: "fds (nuke_shift (n + 1) ?this') ! j
       = (if n + 1 \<le> j \<and> j < fds_count ?this' then fds ?this' ! (j + 1) else fds ?this' ! j)
   \<and> wsi (nuke_shift (n + 1) ?this') ! j
       = (if n + 1 \<le> j \<and> j < fds_count ?this' then wsi ?this' ! (j + 1) else wsi ?this' ! j)"
      using "1.IH" [OF True] "1.prems" by simp
    have n1: "n < length (fds this)" and n2: "n < length (wsi this)"
      using True "1.prems" by simp_all
    show ?thesis
      unfolding step using ih n1 n2 True by (auto simp: nth_list_update)
  qed
qed

lemma nuke_this_table:
  assumes "client < fds_count this" and "fds_count this \<le> length (fds this)"
    and "fds_count this \<le> length (wsi this)"
  shows "take (fds_count this - 1)
           (zip (fds (nuke_this client this)) (wsi (nuke_this client this)))
         = take client (zip (fds this) (wsi this))
           @ drop (client + 1) (take (fds_count this) (zip (fds this) (wsi this)))"
proof (rule nth_equalityI)
  show "length (take (fds_count this - 1)
           (zip (fds (nuke_this client this)) (wsi (nuke_this client this))))
        = length (take client (zip (fds this) (wsi this))
           @ drop (client + 1) (take (fds_count this) (zip (fds this) (wsi this))))"
    using assms by (simp add: nuke_this_def)
next
  fix j
  assume "j < length (take (fds_count this - 1)
           (zip (fds (nuke_this client this)) (wsi (nuke_this client this))))"
  then have j: "j < fds_count this - 1"
    by simp
  let ?dec = "this\<lparr>fds_count := fds_count this - 1\<rparr>"
  have nth: "fds (nuke_shift client ?dec) ! j
       = (if client \<le> j \<and> j < fds_count ?dec then fds ?dec ! (j + 1) else fds ?dec ! j)
   \<and> wsi (nuke_shift client ?dec) ! j
       = (if client \<le> j \<and> j < fds_count ?dec then wsi ?dec ! (j + 1) else wsi ?dec ! j)"
    using assms by (intro nuke_shift_nth) simp_all
  show "take (fds_count this - 1)
           (zip (fds (nuke_this client this)) (wsi (nuke_this client this))) ! j
        = (take client (zip (fds this) (wsi this))
           @ drop (client + 1) (take (fds_count this) (zip (fds this) (wsi this)))) ! j"
    using j assms nth by (auto simp: nuke_this_def nth_append)
qed

lemma poll_connections_from_table:
  "poll_connections_from K ps env client this w = Inr (this', w') \<Longrightarrow>
     this' = this \<or> (\<exists>c. client \<le> c \<and> c < fds_count this \<and> this' = nuke_this c this)"
proof (induction K ps env client this w rule: poll_connections_from.induct)
  case (1 K ps env client this w)
  from "1.prems" "1.IH" show ?case
    by (subst (asm) poll_connections_from.simps)
       (fastforce split: if_splits sum.splits service_step.splits)
qed

text \<open>
  C7. Reaping the slot \<open>client\<close> of a table whose count is within the arrays decrements
  the count and leaves, below the new count, the table of (descriptor, connection slot)
  pairs that was there before with the pair at \<open>client\<close> removed: the entries above it
  move down by one, both arrays together. A slot that is torn down in the service phase is
  reaped and the phase ends there, so a service phase leaves the table as it was or reaps
  exactly one client slot.
\<close>

theorem reap_keeps_pairs_and_ends_service_phase:
  assumes "client < fds_count this" and "fds_count this \<le> length (fds this)"
    and "fds_count this \<le> length (wsi this)"
  shows "fds_count (nuke_this client this) = fds_count this - 1
       \<and> take (fds_count this - 1)
           (zip (fds (nuke_this client this)) (wsi (nuke_this client this)))
         = take client (zip (fds this) (wsi this))
           @ drop (client + 1) (take (fds_count this) (zip (fds this) (wsi this)))
       \<and> (service_slot K ps env this client w = Inr (Nuke w') \<longrightarrow>
            poll_connections_from K ps env client this w = Inr (nuke_this client this, w'))
       \<and> (libwebsocket_poll_connections K ps env this w = Inr (this', w'') \<longrightarrow>
            this' = this \<or>
            (\<exists>c. count_protocols this < c \<and> c < fds_count this \<and> this' = nuke_this c this))"
proof (intro conjI impI)
  show "fds_count (nuke_this client this) = fds_count this - 1"
    by (simp add: nuke_this_def)
  show "take (fds_count this - 1)
           (zip (fds (nuke_this client this)) (wsi (nuke_this client this)))
         = take client (zip (fds this) (wsi this))
           @ drop (client + 1) (take (fds_count this) (zip (fds this) (wsi this)))"
    using assms by (rule nuke_this_table)
next
  assume "service_slot K ps env this client w = Inr (Nuke w')"
  then show "poll_connections_from K ps env client this w = Inr (nuke_this client this, w')"
    using assms(1) by (subst poll_connections_from.simps) simp
next
  assume "libwebsocket_poll_connections K ps env this w = Inr (this', w'')"
  then have "this' = this \<or>
      (\<exists>c. count_protocols this + 1 \<le> c \<and> c < fds_count this \<and> this' = nuke_this c this)"
    using poll_connections_from_table [of K ps env "count_protocols this + 1" this w this' w'']
    by (simp add: libwebsocket_poll_connections_def)
  then show "this' = this \<or>
            (\<exists>c. count_protocols this < c \<and> c < fds_count this \<and> this' = nuke_this c this)"
  proof
    assume "this' = this"
    then show ?thesis by simp
  next
    assume "\<exists>c. count_protocols this + 1 \<le> c \<and> c < fds_count this \<and> this' = nuke_this c this"
    then obtain c where "count_protocols this + 1 \<le> c" and "c < fds_count this"
      and "this' = nuke_this c this" by blast
    then have "count_protocols this < c \<and> c < fds_count this \<and> this' = nuke_this c this"
      by simp
    then show ?thesis by blast
  qed
qed


lemmas example_defs =
  example_constants_def example_protocols_def example_context_def example_world_def
  example_wsi_def example_env_def POLLIN_def POLLERR_def POLLHUP_def

lemma example_teardown_5:
  "libwebsocket_close_and_free_session example_constants False example_protocols 0x2100
     example_world = Inr example_closed_5"
  by (simp add: close_and_free_session_unfold Let_def emit_def session_mark_dead_def
      session_closed_callback_def session_release_def example_defs example_closed_5_def)

lemma example_slot_5:
  "service_slot example_constants example_protocols (example_env 2 5) example_context 5
     example_world = Inr (Nuke example_closed_5)"
  using example_teardown_5
  by (simp add: service_slot_def example_context_def POLLIN_def POLLERR_def POLLHUP_def)

lemma example_slot_3:
  "service_slot example_constants example_protocols (example_env 2 5) example_context 3
     example_world = Inr (Continue example_delivery)"
  using example_fan_out
  by (simp add: service_slot_def example_context_def POLLIN_def POLLERR_def POLLHUP_def
      example_constants_def example_env_def)


lemma example_slot_4:
  "service_slot example_constants example_protocols (example_env 2 5) example_context 4
     w = Inr (Continue w)"
  by (simp add: service_slot_def example_context_def POLLIN_def POLLERR_def POLLHUP_def)

lemma example_teardown_5_after_delivery:
  "libwebsocket_close_and_free_session example_constants False example_protocols 0x2100
     example_delivery = Inr example_serviced"
  by (simp add: close_and_free_session_unfold Let_def emit_def session_mark_dead_def
      session_closed_callback_def session_release_def example_defs example_serviced_def
      example_delivery_def)

lemma example_slot_5_after_delivery:
  "service_slot example_constants example_protocols (example_env 2 5) example_context 5
     example_delivery = Inr (Nuke example_serviced)"
  using example_teardown_5_after_delivery
  by (simp add: service_slot_def example_context_def POLLIN_def POLLERR_def POLLHUP_def)

lemma example_poll_connections:
  "libwebsocket_poll_connections example_constants example_protocols (example_env 2 5)
     example_context example_world = Inr (nuke_this 5 example_context, example_serviced)"
proof -
  have c: "count_protocols example_context = 2" "fds_count example_context = 7"
    by (simp_all add: example_context_def)
  have "poll_connections_from example_constants example_protocols (example_env 2 5) 5
          example_context example_delivery = Inr (nuke_this 5 example_context, example_serviced)"
    by (subst poll_connections_from.simps) (simp add: c example_slot_5_after_delivery)
  then have "poll_connections_from example_constants example_protocols (example_env 2 5) 4
          example_context example_delivery = Inr (nuke_this 5 example_context, example_serviced)"
    by (subst poll_connections_from.simps) (simp add: c example_slot_4)
  then have "poll_connections_from example_constants example_protocols (example_env 2 5) 3
          example_context example_world = Inr (nuke_this 5 example_context, example_serviced)"
    by (subst poll_connections_from.simps) (simp add: c example_slot_3)
  then show ?thesis
    by (simp add: libwebsocket_poll_connections_def c)
qed

text \<open>
  The statement above on the concrete table: slot 5 has hung up, is torn down and reaped,
  and the readable slot 6 behind it is not serviced in this phase.
\<close>

theorem reap_keeps_pairs_and_ends_service_phase_witness:
  "5 < fds_count example_context
   \<and> fds_count example_context \<le> length (fds example_context)
   \<and> fds_count example_context \<le> length (wsi example_context)
   \<and> service_slot example_constants example_protocols (example_env 2 5) example_context 5
        example_world = Inr (Nuke example_closed_5)
   \<and> libwebsocket_poll_connections example_constants example_protocols (example_env 2 5)
        example_context example_world = Inr (nuke_this 5 example_context, example_serviced)
   \<and> fds_count (nuke_this 5 example_context) = 6
   \<and> take 6 (zip (fds (nuke_this 5 example_context)) (wsi (nuke_this 5 example_context)))
       = take 5 (zip (fds example_context) (wsi example_context))
         @ drop 6 (take 7 (zip (fds example_context) (wsi example_context)))
   \<and> poll_connections_from example_constants example_protocols (example_env 2 5) 5
        example_context example_world = Inr (nuke_this 5 example_context, example_closed_5)"
proof -
  have h: "5 < fds_count example_context"
    "fds_count example_context \<le> length (fds example_context)"
    "fds_count example_context \<le> length (wsi example_context)"
    by (simp_all add: example_context_def)
  have c: "fds_count example_context = 7"
    by (simp add: example_context_def)
  show ?thesis
    using reap_keeps_pairs_and_ends_service_phase [OF h, of example_constants example_protocols "example_env 2 5" example_world
                example_closed_5 "nuke_this 5 example_context" example_serviced]
      h example_slot_5 example_poll_connections
    by (simp add: c)
qed

text \<open>
  C3 on the code: \<open>read\<close> fails with -1 on the rendezvous slot 3. \<open>len\<close> is unsigned, the
  test \<open>len < 0\<close> of line 155 is never true, nothing is logged, and the fan-out delivers a
  BROADCAST callback of length 2^64 - 1 to the ESTABLISHED record of protocol 1.
\<close>

theorem rendezvous_read_error_is_broadcast:
  "read_result (example_env (- 1) 5) 3 < 0
   \<and> service_slot example_constants example_protocols (example_env (- 1) 5) example_context 3
        example_world
      = Inr (Continue (emit [Callback 0x2100 LWS_CALLBACK_BROADCAST 0 0xFFFFFFFFFFFFFFFF]
                         example_world))"
  by (simp add: service_slot_def broadcast_fan_out.simps example_defs)

text \<open>
  C4 as stated fails for a negative result: \<open>recv\<close> returns -1 on the readable client slot
  6, and the loop logs it and continues with the record and the table untouched.
\<close>

theorem negative_client_read_keeps_connection:
  "recv_result (example_env 2 (- 1)) 6 < 0
   \<and> service_slot example_constants example_protocols (example_env 2 (- 1)) example_context 6
        example_world
      = Inr (Continue (emit [Log ''Socket read returned''] example_world))"
  by (simp add: service_slot_def example_defs)

text \<open>
  C4, as the code has it. For a readable client slot without error or hang-up whose record
  exists: a transport read of 0 bytes tears the connection down and reaps its slot; a
  negative result is logged and the loop goes on to the next slot, with the connection and
  the table left as they are; a positive byte count is handed to libwebsocket_read, whose
  negative result reaps the slot and whose other results let the loop go on.
\<close>

theorem client_read_dispatch:
  assumes "client < fds_count this"
    and "revents (fds this ! client) AND (POLLERR OR POLLHUP) = 0"
    and "revents (fds this ! client) AND POLLIN \<noteq> 0"
    and "LWS_MAX_PROTOCOLS K \<le> unat (wsi this ! client)"
    and "heap w (wsi this ! client) = Some r" and "protocol r < length ps"
  shows "(recv_result env client = 0 \<longrightarrow>
            (\<exists>w'. libwebsocket_close_and_free_session K (use_ssl this) ps (wsi this ! client) w
                    = Inr w'
                 \<and> heap w' (wsi this ! client) = None
                 \<and> poll_connections_from K ps env client this w
                    = Inr (nuke_this client this, w')))
       \<and> (recv_result env client < 0 \<longrightarrow>
            service_slot K ps env this client w
              = Inr (Continue (emit [Log ''Socket read returned''] w))
            \<and> poll_connections_from K ps env client this w
              = poll_connections_from K ps env (client + 1) this
                  (emit [Log ''Socket read returned''] w))
       \<and> (0 < recv_result env client \<longrightarrow>
            poll_connections_from K ps env client this w
              = (case libwebsocket_read env (wsi this ! client) (recv_result env client) w of
                   (res, w') \<Rightarrow>
                     if 0 \<le> res then poll_connections_from K ps env (client + 1) this w'
                     else Inr (nuke_this client this, w')))"
proof (intro conjI impI)
  assume z: "recv_result env client = 0"
  obtain w' where t: "libwebsocket_close_and_free_session K (use_ssl this) ps
                        (wsi this ! client) w = Inr w'"
    and h: "heap w' (wsi this ! client) = None"
    using assms(4-6)
    by (simp add: close_and_free_session_unfold Let_def emit_def session_mark_dead_def)
  have "service_slot K ps env this client w = Inr (Nuke w')"
    using assms z t by (simp add: service_slot_def)
  then have "poll_connections_from K ps env client this w = Inr (nuke_this client this, w')"
    using assms(1) by (subst poll_connections_from.simps) simp
  with t h show "\<exists>w'. libwebsocket_close_and_free_session K (use_ssl this) ps
                        (wsi this ! client) w = Inr w'
                 \<and> heap w' (wsi this ! client) = None
                 \<and> poll_connections_from K ps env client this w
                    = Inr (nuke_this client this, w')"
    by blast
next
  assume n: "recv_result env client < 0"
  show s: "service_slot K ps env this client w
              = Inr (Continue (emit [Log ''Socket read returned''] w))"
    using assms n by (simp add: service_slot_def)
  show "poll_connections_from K ps env client this w
              = poll_connections_from K ps env (client + 1) this
                  (emit [Log ''Socket read returned''] w)"
    using assms(1) s by (subst poll_connections_from.simps) simp
next
  assume p: "0 < recv_result env client"
  have "service_slot K ps env this client w
          = (case libwebsocket_read env (wsi this ! client) (recv_result env client) w of
               (res, w') \<Rightarrow> if 0 \<le> res then Inr (Continue w') else Inr (Nuke w'))"
    using assms p by (simp add: service_slot_def)
  then show "poll_connections_from K ps env client this w
              = (case libwebsocket_read env (wsi this ! client) (recv_result env client) w of
                   (res, w') \<Rightarrow>
                     if 0 \<le> res then poll_connections_from K ps env (client + 1) this w'
                     else Inr (nuke_this client this, w'))"
    using assms(1)
    by (subst poll_connections_from.simps) (simp split: prod.splits)
qed


text \<open>The statement above on the readable client slot 6, for the three kinds of result.\<close>

theorem client_read_dispatch_witness:
  "6 < fds_count example_context
   \<and> revents (fds example_context ! 6) AND (POLLERR OR POLLHUP) = 0
   \<and> revents (fds example_context ! 6) AND POLLIN \<noteq> 0
   \<and> LWS_MAX_PROTOCOLS example_constants \<le> unat (wsi example_context ! 6)
   \<and> heap example_world (wsi example_context ! 6) = Some (example_wsi 9 WSI_STATE_HTTP 0)
   \<and> protocol (example_wsi 9 WSI_STATE_HTTP 0) < length example_protocols
   \<and> recv_result (example_env 2 0) 6 = 0
   \<and> recv_result (example_env 2 (- 1)) 6 < 0
   \<and> 0 < recv_result (example_env 2 5) 6
   \<and> (\<exists>w'. libwebsocket_close_and_free_session example_constants (use_ssl example_context)
               example_protocols (wsi example_context ! 6) example_world = Inr w'
          \<and> heap w' (wsi example_context ! 6) = None
          \<and> poll_connections_from example_constants example_protocols (example_env 2 0) 6
               example_context example_world = Inr (nuke_this 6 example_context, w'))
   \<and> service_slot example_constants example_protocols (example_env 2 (- 1)) example_context 6
        example_world = Inr (Continue (emit [Log ''Socket read returned''] example_world))
   \<and> poll_connections_from example_constants example_protocols (example_env 2 (- 1)) 6
        example_context example_world
      = poll_connections_from example_constants example_protocols (example_env 2 (- 1)) (6 + 1)
          example_context (emit [Log ''Socket read returned''] example_world)
   \<and> poll_connections_from example_constants example_protocols (example_env 2 5) 6
        example_context example_world
      = poll_connections_from example_constants example_protocols (example_env 2 5) (6 + 1)
          example_context
          (emit [Callback (wsi example_context ! 6) LWS_CALLBACK_RECEIVE 0 5] example_world)"
proof -
  have h: "6 < fds_count example_context"
    "revents (fds example_context ! 6) AND (POLLERR OR POLLHUP) = 0"
    "revents (fds example_context ! 6) AND POLLIN \<noteq> 0"
    "LWS_MAX_PROTOCOLS example_constants \<le> unat (wsi example_context ! 6)"
    "heap example_world (wsi example_context ! 6) = Some (example_wsi 9 WSI_STATE_HTTP 0)"
    "protocol (example_wsi 9 WSI_STATE_HTTP 0) < length example_protocols"
    by (simp_all add: example_defs)
  have r: "recv_result (example_env 2 0) 6 = 0" "recv_result (example_env 2 (- 1)) 6 < 0"
    "0 < recv_result (example_env 2 5) 6"
    "libwebsocket_read (example_env 2 5) (wsi example_context ! 6)
       (recv_result (example_env 2 5) 6) example_world
     = (0, emit [Callback (wsi example_context ! 6) LWS_CALLBACK_RECEIVE 0 5] example_world)"
    by (simp_all add: example_env_def)
  show ?thesis
    using client_read_dispatch [OF h, of "example_env 2 0"] client_read_dispatch [OF h, of "example_env 2 (- 1)"]
      client_read_dispatch [OF h, of "example_env 2 5"] h r
    by simp
qed

section \<open>The accept phase and bootstrap\<close>

declare accept_from.simps [simp del] create_server_protocols.simps [simp del]

lemma emit_Nil [simp]: "emit [] w = w"
  by (simp add: emit_def)

lemma emit_emit [simp]: "emit es2 (emit es1 w) = emit (es1 @ es2) w"
  by (simp add: emit_def)

lemma accept_skipped_iff: "accept_skipped pfd \<longleftrightarrow> revents pfd = 0"
  by (simp add: accept_skipped_def c_lnot_def POLLIN_def)

lemma accept_slot_full:
  assumes "MAX_CLIENTS K \<le> fds_count this"
  shows "\<exists>es. accept_slot K env this client w = Inr (this, emit es w)
            \<and> filter is_callback es = []"
proof (cases "accept_skipped (fds this ! client)")
  case True
  then have "accept_slot K env this client w = Inr (this, emit [] w)"
    by (simp add: accept_slot_def)
  then show ?thesis by (intro exI [of _ "[]"]) simp
next
  case False
  show ?thesis
  proof (cases "accept_result env client < 0")
    case True
    then have "accept_slot K env this client w = Inr (this, emit [Log ''ERROR on accept''] w)"
      using False by (simp add: accept_slot_def)
    then show ?thesis by (intro exI [of _ "[Log ''ERROR on accept'']"]) simp
  next
    case nonneg: False
    then have "accept_slot K env this client w
                 = Inr (this, emit [Log ''too busy'', Close (accept_result env client)] w)"
      using False assms by (simp add: accept_slot_def)
    then show ?thesis
      by (intro exI [of _ "[Log ''too busy'', Close (accept_result env client)]"]) simp
  qed
qed

lemma accept_from_full:
  "MAX_CLIENTS K \<le> fds_count this \<Longrightarrow>
     \<exists>es. accept_from K env client this w = Inr (this, emit es w) \<and> filter is_callback es = []"
proof (induction K env client this w rule: accept_from.induct)
  case (1 K env client this w)
  show ?case
  proof (cases "client < count_protocols this + 1")
    case False
    then have "accept_from K env client this w = Inr (this, emit [] w)"
      by (subst accept_from.simps) simp
    then show ?thesis by (intro exI [of _ "[]"]) simp
  next
    case True
    obtain es1 where s: "accept_slot K env this client w = Inr (this, emit es1 w)"
      and f1: "filter is_callback es1 = []"
      using accept_slot_full [OF "1.prems"] by blast
    obtain es2 where r: "accept_from K env (client + 1) this (emit es1 w)
                           = Inr (this, emit es2 (emit es1 w))"
      and f2: "filter is_callback es2 = []"
      using "1.IH" [OF True s refl] "1.prems" by blast
    have "accept_from K env client this w = Inr (this, emit (es1 @ es2) w)"
      using True s r by (subst accept_from.simps) simp
    then show ?thesis
      using f1 f2 by (intro exI [of _ "es1 @ es2"]) simp
  qed
qed

text \<open>
  C6. When the table already holds MAX_CLIENTS entries, a slot on which the code accepts
  and \<open>accept\<close> succeeds has its new descriptor closed at once: the context with both of
  its arrays and every record stay as they were, no record is created, and the trace gains
  the line ``too busy'' and the \<open>close\<close>. The whole accept phase on a full table leaves the
  context and the records unchanged and makes no callback.
\<close>

theorem accept_on_full_table_closes_descriptor:
  assumes "MAX_CLIENTS K \<le> fds_count this"
  shows "(\<not> accept_skipped (fds this ! client) \<and> 0 \<le> accept_result env client \<longrightarrow>
            accept_slot K env this client w
              = Inr (this, emit [Log ''too busy'', Close (accept_result env client)] w))
       \<and> (\<exists>es. accept_from K env 0 this w = Inr (this, emit es w)
               \<and> filter is_callback es = [])"
  using assms accept_from_full [of K this env 0 w]
  by (simp add: accept_slot_def)

text \<open>The statement above on a full table whose listener is readable.\<close>

theorem accept_on_full_table_closes_descriptor_witness:
  "MAX_CLIENTS example_full_constants \<le> fds_count example_full_context
   \<and> \<not> accept_skipped (fds example_full_context ! 0)
   \<and> 0 \<le> accept_result example_accept_env 0
   \<and> accept_slot example_full_constants example_accept_env example_full_context 0
        example_world
      = Inr (example_full_context, emit [Log ''too busy'', Close 12] example_world)
   \<and> (\<exists>es. accept_from example_full_constants example_accept_env 0 example_full_context
               example_world = Inr (example_full_context, emit es example_world)
          \<and> filter is_callback es = [])"
proof -
  have h: "MAX_CLIENTS example_full_constants \<le> fds_count example_full_context"
    by (simp add: example_full_constants_def example_full_context_def example_constants_def
        example_context_def)
  have a: "\<not> accept_skipped (fds example_full_context ! 0)"
    by (simp add: accept_skipped_iff example_full_context_def example_context_def POLLIN_def)
  have r: "accept_result example_accept_env 0 = 12"
    by (simp add: example_accept_env_def)
  show ?thesis
    using accept_on_full_table_closes_descriptor [OF h, of 0 example_accept_env example_world] h a r
    by simp
qed

text \<open>
  C8 on the code: the broadcast listener in slot 1 reports POLLERR and not POLLIN. The test
  of line 537 skips a slot only when its \<open>revents\<close> is zero, so \<open>accept\<close> is called, and
  its descriptor 12 is appended to the table with the sentinel 0.
\<close>

theorem accept_attempted_without_pollin:
  "revents (fds example_error_context ! 1) AND POLLIN = 0
   \<and> accept_slot example_constants example_accept_env example_error_context 1 example_world
      = Inr (fill_in_fds 12 (example_error_context
                \<lparr>wsi := (wsi example_error_context)[fds_count example_error_context := 0]\<rparr>),
             example_world)"
  by (simp add: accept_slot_def accept_skipped_iff example_error_context_def
      example_context_def example_constants_def example_accept_env_def
      POLLIN_def POLLERR_def)


lemma table_bootstrapped_iff:
  "table_bootstrapped ps this \<longleftrightarrow>
     fds_count this = count_protocols this + 1 \<and>
     (\<forall>k. 1 \<le> k \<and> k \<le> count_protocols this \<longrightarrow> wsi this ! k = 0) \<and>
     (\<forall>k < count_protocols this. callback (ps ! k) \<and> protocol_index (ps ! k) = of_nat k)"
  by (auto simp: table_bootstrapped_def list_all_iff)

lemma create_server_protocols_bootstrapped:
  "create_server_protocols env this_ptr ps this = Inr (ps', this') \<Longrightarrow>
     table_bootstrapped ps this \<Longrightarrow> table_bootstrapped ps' this'"
proof (induction env this_ptr ps this rule: create_server_protocols.induct)
  case (1 env this_ptr ps this)
  let ?k = "count_protocols this"
  show ?case
  proof (cases "?k < length ps \<and> callback (ps ! ?k)")
    case False
    then show ?thesis
      using "1.prems" by (subst (asm) create_server_protocols.simps) (auto split: if_splits)
  next
    case True
    let ?ps1 = "ps[?k := (ps ! ?k)\<lparr>owning_server := this_ptr, protocol_index := of_nat ?k\<rparr>]"
    let ?ps2 = "?ps1[?k := (?ps1 ! ?k)\<lparr>broadcast_socket_port := sockname_port env (?k + 1)\<rparr>]"
    let ?this1 = "this\<lparr>fds := (fds this)[fds_count this :=
                            (fds this ! fds_count this)
                              \<lparr>fd := socket_result env (?k + 1), events := POLLIN\<rparr>],
                  wsi := (wsi this)[fds_count this := 0],
                  fds_count := fds_count this + 1,
                  count_protocols := ?k + 1\<rparr>"
    have ok: "\<not> socket_result env (?k + 1) < 0" "\<not> bind_result env (?k + 1) < 0"
      "\<not> getsockname_result env (?k + 1) < 0"
      "fds_count this < length (fds this)" "fds_count this < length (wsi this)"
      and rec: "create_server_protocols env this_ptr ?ps2 ?this1 = Inr (ps', this')"
      using "1.prems"(1) True
      by (subst (asm) create_server_protocols.simps; simp add: Let_def split: if_splits)+
    have inv: "table_bootstrapped ?ps2 ?this1"
      using "1.prems"(2) True ok(4,5)
      by (auto simp: table_bootstrapped_iff nth_list_update less_Suc_eq)
    show ?thesis
      using "1.IH" [OF _ _ refl refl _ _ _ _ rec inv] True ok by simp
  qed
qed


text \<open>
  The loop leaves the callbacks of the array as the user passed them and stops at an entry
  without a callback, so the count it reaches is the number of protocols: the number of
  entries before the first one without a callback.
\<close>

lemma create_server_protocols_terminator:
  "create_server_protocols env this_ptr ps this = Inr (ps', this') \<Longrightarrow>
     map callback ps' = map callback ps
     \<and> count_protocols this' < length ps'
     \<and> \<not> callback (ps' ! count_protocols this')"
proof (induction env this_ptr ps this rule: create_server_protocols.induct)
  case (1 env this_ptr ps this)
  let ?k = "count_protocols this"
  show ?case
  proof (cases "?k < length ps \<and> callback (ps ! ?k)")
    case False
    then show ?thesis
      using "1.prems" by (subst (asm) create_server_protocols.simps) (auto split: if_splits)
  next
    case True
    let ?ps1 = "ps[?k := (ps ! ?k)\<lparr>owning_server := this_ptr, protocol_index := of_nat ?k\<rparr>]"
    let ?ps2 = "?ps1[?k := (?ps1 ! ?k)\<lparr>broadcast_socket_port := sockname_port env (?k + 1)\<rparr>]"
    let ?this1 = "this\<lparr>fds := (fds this)[fds_count this :=
                            (fds this ! fds_count this)
                              \<lparr>fd := socket_result env (?k + 1), events := POLLIN\<rparr>],
                  wsi := (wsi this)[fds_count this := 0],
                  fds_count := fds_count this + 1,
                  count_protocols := ?k + 1\<rparr>"
    have ok: "\<not> socket_result env (?k + 1) < 0" "\<not> bind_result env (?k + 1) < 0"
      "\<not> getsockname_result env (?k + 1) < 0"
      "fds_count this < length (fds this)" "fds_count this < length (wsi this)"
      and rec: "create_server_protocols env this_ptr ?ps2 ?this1 = Inr (ps', this')"
      using "1.prems"(1) True
      by (subst (asm) create_server_protocols.simps; simp add: Let_def split: if_splits)+
    have same: "map callback ?ps2 = map callback ps"
      using True by (simp add: map_update list_update_same_conv)
    have "map callback ps' = map callback ?ps2
          \<and> count_protocols this' < length ps'
          \<and> \<not> callback (ps' ! count_protocols this')"
      using "1.IH" [OF _ _ refl refl _ _ _ _ rec] True ok by simp
    then show ?thesis
      using same by simp
  qed
qed

lemma count_is_number_of_protocols:
  assumes "\<forall>k < c. callback (ps ! k)" and "c < length ps" and "\<not> callback (ps ! c)"
  shows "length (takeWhile callback ps) = c"
proof -
  have "takeWhile callback ps = take c ps"
    using assms by (intro takeWhile_eq_take_P_nth) auto
  then show ?thesis
    using assms(2) by simp
qed

lemma example_bootstrap:
  "create_server_table example_boot_env False 0x1000 example_fds0 example_wsi0
     example_user_protocols = Inr (example_protocols, example_booted_context)"
  by (simp add: create_server_table_def create_server_listener_def
      create_server_protocols.simps Let_def example_boot_env_def example_fds0_def
      example_wsi0_def example_user_protocols_def example_protocols_def
      example_booted_context_def example_garbage_def POLLIN_def)

text \<open>
  C9, as the code has it. After bootstrap \<open>count_protocols\<close> is N, the number of protocols
  (the entries of the array before the first one without a callback, which is where the
  loop stops, the callbacks being left as the user passed them). The table holds the
  listener and one broadcast listener per protocol, the connection slot of every slot 1 to
  N holds NULL, and every protocol before the terminator carries its position as
  \<open>protocol_index\<close>. The small-integer sentinel \<open>client - 1\<close> is stored later, in the
  connection slot of the entry that the accept phase appends for a connection accepted on
  the broadcast listener in slot \<open>client\<close>.
\<close>

theorem bootstrap_slots_null_sentinel_on_accept:
  "(create_server_table env ssl_on this_ptr fds0 wsi0 ps = Inr (ps', this)
      \<longrightarrow> count_protocols this = length (takeWhile callback ps)
          \<and> count_protocols this < length ps'
          \<and> \<not> callback (ps' ! count_protocols this)
          \<and> map callback ps' = map callback ps
          \<and> list_all (\<lambda>k. wsi this ! k = 0) [1 ..< length (takeWhile callback ps) + 1]
          \<and> table_bootstrapped ps' this)
   \<and> (1 \<le> client \<and> \<not> accept_skipped (fds that ! client) \<and> 0 \<le> accept_result aenv client
        \<and> fds_count that < MAX_CLIENTS K \<and> fds_count that < length (wsi that)
      \<longrightarrow> (\<exists>that'. accept_slot K aenv that client w = Inr (that', w)
                 \<and> wsi that' ! fds_count that = of_nat (client - 1)
                 \<and> fds_count that' = fds_count that + 1))"
proof (rule conjI; rule impI)
  assume b: "create_server_table env ssl_on this_ptr fds0 wsi0 ps = Inr (ps', this)"
  then obtain this0 where l: "create_server_listener env ssl_on fds0 wsi0 = Inr this0"
    and p: "create_server_protocols env this_ptr ps this0 = Inr (ps', this)"
    by (auto simp: create_server_table_def split: sum.splits)
  have "fds_count this0 = 1" and "count_protocols this0 = 0"
    using l by (auto simp: create_server_listener_def split: if_splits)
  then have "table_bootstrapped ps this0"
    by (simp add: table_bootstrapped_def)
  with p have boot: "table_bootstrapped ps' this"
    by (rule create_server_protocols_bootstrapped)
  have same: "map callback ps' = map callback ps"
    and stop: "count_protocols this < length ps'" "\<not> callback (ps' ! count_protocols this)"
    using create_server_protocols_terminator [OF p] by simp_all
  have len: "length ps' = length ps"
    using same by (rule map_eq_imp_length_eq)
  have cb: "callback (ps ! k) = callback (ps' ! k)" if "k < length ps" for k
    using that same len by (metis nth_map)
  have "\<forall>k < count_protocols this. callback (ps ! k)"
    using boot stop(1) len cb by (auto simp: table_bootstrapped_iff)
  moreover have "\<not> callback (ps ! count_protocols this)"
    using stop len cb by simp
  ultimately have n: "length (takeWhile callback ps) = count_protocols this"
    using stop(1) len by (intro count_is_number_of_protocols) simp_all
  have "list_all (\<lambda>k. wsi this ! k = 0) [1 ..< length (takeWhile callback ps) + 1]"
    using boot n by (simp add: table_bootstrapped_def)
  with boot same stop n
  show "count_protocols this = length (takeWhile callback ps)
          \<and> count_protocols this < length ps'
          \<and> \<not> callback (ps' ! count_protocols this)
          \<and> map callback ps' = map callback ps
          \<and> list_all (\<lambda>k. wsi this ! k = 0) [1 ..< length (takeWhile callback ps) + 1]
          \<and> table_bootstrapped ps' this"
    by simp
next
  assume "1 \<le> client \<and> \<not> accept_skipped (fds that ! client) \<and> 0 \<le> accept_result aenv client
        \<and> fds_count that < MAX_CLIENTS K \<and> fds_count that < length (wsi that)"
  then show "\<exists>that'. accept_slot K aenv that client w = Inr (that', w)
                 \<and> wsi that' ! fds_count that = of_nat (client - 1)
                 \<and> fds_count that' = fds_count that + 1"
    by (simp add: accept_slot_def fill_in_fds_def)
qed

text \<open>
  C9 as stated fails for the second protocol: after bootstrap with two protocols the
  connection slot of slot 2 holds NULL, not the protocol index 1.
\<close>

theorem bootstrap_slot_two_holds_null:
  "map_sum id (\<lambda>x. (count_protocols (snd x), wsi (snd x) ! 2))
     (create_server_table example_boot_env False 0x1000 example_fds0 example_wsi0
        example_user_protocols) = Inr (2, 0)
   \<and> (0 :: addr) \<noteq> of_nat (2 - 1)"
  by (simp add: example_bootstrap example_booted_context_def)

text \<open>
  The statement above for a bootstrap with two protocols and for a connection accepted on
  the broadcast listener in slot 2.
\<close>

theorem bootstrap_slots_null_sentinel_on_accept_witness:
  "create_server_table example_boot_env False 0x1000 example_fds0 example_wsi0
     example_user_protocols = Inr (example_protocols, example_booted_context)
   \<and> (1 :: nat) \<le> 2 \<and> \<not> accept_skipped (fds example_rendezvous_context ! 2)
   \<and> 0 \<le> accept_result example_accept_env 2
   \<and> fds_count example_rendezvous_context < MAX_CLIENTS example_constants
   \<and> fds_count example_rendezvous_context < length (wsi example_rendezvous_context)
   \<and> count_protocols example_booted_context = length (takeWhile callback example_user_protocols)
   \<and> count_protocols example_booted_context = 2
   \<and> count_protocols example_booted_context < length example_protocols
   \<and> \<not> callback (example_protocols ! count_protocols example_booted_context)
   \<and> map callback example_protocols = map callback example_user_protocols
   \<and> list_all (\<lambda>k. wsi example_booted_context ! k = 0)
        [1 ..< length (takeWhile callback example_user_protocols) + 1]
   \<and> table_bootstrapped example_protocols example_booted_context
   \<and> (\<exists>that'. accept_slot example_constants example_accept_env example_rendezvous_context 2
                 example_world = Inr (that', example_world)
           \<and> wsi that' ! fds_count example_rendezvous_context = 1
           \<and> fds_count that' = fds_count example_rendezvous_context + 1)"
proof -
  have h: "\<not> accept_skipped (fds example_rendezvous_context ! 2)"
    "0 \<le> accept_result example_accept_env 2"
    "fds_count example_rendezvous_context < MAX_CLIENTS example_constants"
    "fds_count example_rendezvous_context < length (wsi example_rendezvous_context)"
    by (simp_all add: accept_skipped_iff example_rendezvous_context_def example_context_def
        example_accept_env_def example_constants_def POLLIN_def)
  have c: "count_protocols example_booted_context = 2"
    by (simp add: example_booted_context_def)
  have one: "(1 :: nat) \<le> 2"
    by simp
  note t = bootstrap_slots_null_sentinel_on_accept
             [where env = example_boot_env and ssl_on = False and this_ptr = "0x1000"
                and ?fds0.0 = example_fds0 and ?wsi0.0 = example_wsi0
                and ps = example_user_protocols and ps' = example_protocols
                and this = example_booted_context and client = 2
                and that = example_rendezvous_context and aenv = example_accept_env
                and K = example_constants and w = example_world]
  have booted:
    "count_protocols example_booted_context = length (takeWhile callback example_user_protocols)
     \<and> count_protocols example_booted_context < length example_protocols
     \<and> \<not> callback (example_protocols ! count_protocols example_booted_context)
     \<and> map callback example_protocols = map callback example_user_protocols
     \<and> list_all (\<lambda>k. wsi example_booted_context ! k = 0)
          [1 ..< length (takeWhile callback example_user_protocols) + 1]
     \<and> table_bootstrapped example_protocols example_booted_context"
    using t [THEN conjunct1, THEN mp, OF example_bootstrap] .
  have accepted:
    "\<exists>that'. accept_slot example_constants example_accept_env example_rendezvous_context 2
                 example_world = Inr (that', example_world)
           \<and> wsi that' ! fds_count example_rendezvous_context = 1
           \<and> fds_count that' = fds_count example_rendezvous_context + 1"
    using t [THEN conjunct2] h by simp
  show ?thesis
    using booted accepted example_bootstrap h c one by blast
qed

end
